theory Spec2Isabelle
  imports Main "HOL-Library.Sublist" "HOL-Library.Word"
begin

unbundle bit_operations_syntax

section \<open>Strings and paths of the Go standard library\<close>

text \<open>
  A Go string is a byte sequence; it is modelled by \<^typ>\<open>string\<close>.  The functions below
  are the ones of packages \<^verbatim>\<open>strings\<close> and \<^verbatim>\<open>path/filepath\<close> (Unix separator) that
  the engine calls.
\<close>

text \<open>
  \<^verbatim>\<open>strings.ToLower\<close> and \<^verbatim>\<open>strings.TrimSpace\<close> work on the bytes of the string as
  long as these are ASCII, and hand the string over to the tables of package
  \<^verbatim>\<open>unicode\<close> at the first byte that is not.  The tables are not part of the model; what
  they make of a string is a parameter: \<open>MapToLower s\<close> is
  \<^verbatim>\<open>strings.Map(unicode.ToLower, s)\<close>, \<open>TrimFunc_IsSpace s\<close> is
  \<^verbatim>\<open>strings.TrimFunc(s, unicode.IsSpace)\<close>, and \<open>TrimRightFunc_IsSpace s\<close> is
  \<^verbatim>\<open>strings.TrimRightFunc(s, unicode.IsSpace)\<close>.
\<close>

record unicode =
  MapToLower :: "string \<Rightarrow> string"
  TrimFunc_IsSpace :: "string \<Rightarrow> string"
  TrimRightFunc_IsSpace :: "string \<Rightarrow> string"

text \<open>A byte below \<^verbatim>\<open>utf8.RuneSelf\<close>, that is below 128.\<close>

definition is_ascii :: "char \<Rightarrow> bool" where
  "is_ascii c = (\<not> digit7 c)"

definition HasPrefix :: "string \<Rightarrow> string \<Rightarrow> bool" where
  "HasPrefix s p = prefix p s"

definition HasSuffix :: "string \<Rightarrow> string \<Rightarrow> bool" where
  "HasSuffix s p = suffix p s"

fun Contains :: "string \<Rightarrow> string \<Rightarrow> bool" where
  "Contains [] sub = (sub = [])"
| "Contains (c # cs) sub = (prefix sub (c # cs) \<or> Contains cs sub)"

definition lower_table :: "(char \<times> char) list" where
  "lower_table = zip ''ABCDEFGHIJKLMNOPQRSTUVWXYZ'' ''abcdefghijklmnopqrstuvwxyz''"

definition lower_char :: "char \<Rightarrow> char" where
  "lower_char c = (case map_of lower_table c of Some d \<Rightarrow> d | None \<Rightarrow> c)"

definition ToLower :: "unicode \<Rightarrow> string \<Rightarrow> string" where
  "ToLower u s = (if list_all is_ascii s then map lower_char s else MapToLower u s)"

definition is_space :: "char \<Rightarrow> bool" where
  "is_space c = (c \<in> set [CHR '' '', CHR 0x09, CHR 0x0A, CHR 0x0B, CHR 0x0C, CHR 0x0D])"

text \<open>
  \<^verbatim>\<open>strings.TrimSpace\<close>: the ASCII blanks at the front are skipped; when the first byte
  after them is not ASCII, the rest goes to the tables.  Otherwise the ASCII blanks at
  the end are skipped, and when the last byte before them is not ASCII, what is left goes
  to the tables to be trimmed on the right.
\<close>

definition TrimSpace :: "unicode \<Rightarrow> string \<Rightarrow> string" where
  "TrimSpace u s =
     (let t = dropWhile is_space s
      in if t \<noteq> [] \<and> \<not> is_ascii (hd t) then TrimFunc_IsSpace u t
         else let r = rev (dropWhile is_space (rev t))
              in if r \<noteq> [] \<and> \<not> is_ascii (last r) then TrimRightFunc_IsSpace u r else r)"

text \<open>\<^verbatim>\<open>strings.ReplaceAll(s, c, "")\<close> for a one-byte pattern \<open>c\<close>.\<close>

definition RemoveAll :: "string \<Rightarrow> char \<Rightarrow> string" where
  "RemoveAll s c = filter (\<lambda>d. d \<noteq> c) s"

fun split_sep :: "string \<Rightarrow> string list" where
  "split_sep [] = [[]]"
| "split_sep (c # cs) =
     (if c = CHR ''/'' then [] # split_sep cs
      else (case split_sep cs of [] \<Rightarrow> [[c]] | x # xs \<Rightarrow> (c # x) # xs))"

fun join_sep :: "string list \<Rightarrow> string" where
  "join_sep [] = []"
| "join_sep [x] = x"
| "join_sep (x # y # ys) = x @ ''/'' @ join_sep (y # ys)"

text \<open>
  \<^verbatim>\<open>filepath.Clean\<close>, element by element: empty and \<^verbatim>\<open>.\<close> elements are dropped, a
  \<^verbatim>\<open>..\<close> removes the element before it, is dropped at the root of a rooted path, and is
  kept at the front of a relative one.  The second argument is the output so far, last
  element first.
\<close>

fun clean_elems :: "bool \<Rightarrow> string list \<Rightarrow> string list \<Rightarrow> string list" where
  "clean_elems rooted out [] = rev out"
| "clean_elems rooted out (e # es) =
     (if e = [] \<or> e = ''.'' then clean_elems rooted out es
      else if e = ''..'' then
        (case out of
           [] \<Rightarrow> if rooted then clean_elems rooted [] es else clean_elems rooted [''..''] es
         | t # ts \<Rightarrow> if t = ''..'' then clean_elems rooted (''..'' # out) es
                     else clean_elems rooted ts es)
      else clean_elems rooted (e # out) es)"

definition Clean :: "string \<Rightarrow> string" where
  "Clean path =
     (if path = [] then ''.''
      else let rooted = (hd path = CHR ''/'');
               body = join_sep (clean_elems rooted [] (split_sep path))
           in if rooted then CHR ''/'' # body
              else if body = [] then ''.'' else body)"

text \<open>\<^verbatim>\<open>filepath.Join\<close>: leading empty elements are skipped, the rest is joined and cleaned.\<close>

definition Join :: "string list \<Rightarrow> string" where
  "Join elem =
     (case dropWhile (\<lambda>e. e = []) elem of
        [] \<Rightarrow> []
      | e # es \<Rightarrow> Clean (join_sep (e # es)))"

text \<open>\<^verbatim>\<open>filepath.Dir\<close>: everything up to and including the last separator, cleaned.\<close>

definition Dir :: "string \<Rightarrow> string" where
  "Dir path = Clean (rev (dropWhile (\<lambda>c. c \<noteq> CHR ''/'') (rev path)))"

text \<open>\<^verbatim>\<open>filepath.Base\<close>: the last element, after trailing separators are removed.\<close>

definition Base :: "string \<Rightarrow> string" where
  "Base path =
     (if path = [] then ''.''
      else let p = rev (dropWhile (\<lambda>c. c = CHR ''/'') (rev path));
               b = rev (takeWhile (\<lambda>c. c \<noteq> CHR ''/'') (rev p))
           in if b = [] then ''/'' else b)"

section \<open>The host: file system, toolchains, processes\<close>

text \<open>
  Everything the engine asks of the operating system is a field of the host: the answer
  of \<^verbatim>\<open>os.Stat\<close> for a path, the matches of \<^verbatim>\<open>filepath.Glob\<close> for a pattern, the
  outcome of a toolchain command run in a directory (\<open>RunCmd\<close> for \<^verbatim>\<open>cmd.Run\<close>, and
  \<open>CombinedOutput\<close>, which also gives what the command printed), and so on.  An error
  is a message, \<open>None\<close> is Go's \<^verbatim>\<open>nil\<close> error.  The host also holds the tables of
  package \<^verbatim>\<open>unicode\<close>.
\<close>

datatype stat_result = StatOk | StatNotExist | StatError

record host =
  Stat :: "string \<Rightarrow> stat_result"
  Glob :: "string \<Rightarrow> string list"
  MkdirAll :: "string \<Rightarrow> string option"
  RunCmd :: "string list \<Rightarrow> string \<Rightarrow> string option"
  CombinedOutput :: "string list \<Rightarrow> string \<Rightarrow> string \<times> string option"
  StartCmd :: "string list \<Rightarrow> string + nat"
  WriteFile :: "string \<Rightarrow> string option"
  NewWatcher :: "string option"
  WatcherAdd :: "string \<Rightarrow> string option"
  CopyFile :: "string \<Rightarrow> string \<Rightarrow> string option"
  sha256_hex :: "string \<Rightarrow> string"
  asynctimerchan :: bool
  unicode_tables :: unicode

section \<open>Runtime kinds\<close>

datatype runtime = GolangRuntime | NodeJSRuntime | PythonRuntime

fun Name :: "runtime \<Rightarrow> string" where
  "Name GolangRuntime = ''golang''"
| "Name NodeJSRuntime = ''nodejs''"
| "Name PythonRuntime = ''python''"

fun NeedsBuild :: "runtime \<Rightarrow> bool" where
  "NeedsBuild GolangRuntime = True"
| "NeedsBuild NodeJSRuntime = False"
| "NeedsBuild PythonRuntime = False"

fun WatchPatterns :: "runtime \<Rightarrow> string list" where
  "WatchPatterns GolangRuntime = [''*.go'', ''go.mod'', ''go.sum'']"
| "WatchPatterns NodeJSRuntime = [''*.js'', ''*.ts'', ''package.json'', ''tsconfig.json'']"
| "WatchPatterns PythonRuntime = [''*.py'', ''requirements.txt'']"

text \<open>
  \<^verbatim>\<open>Build(functionDir, outputPath)\<close>.  The Go kind creates the parent of the output path
  and runs the compiler in the function directory, for the fixed target platform; the
  other two run their installer when the manifest is there and do nothing otherwise.
\<close>

fun Build :: "host \<Rightarrow> runtime \<Rightarrow> string \<Rightarrow> string \<Rightarrow> string option" where
  "Build h GolangRuntime functionDir outputPath =
     (case MkdirAll h (Dir outputPath) of
        Some e \<Rightarrow> Some (''error creating output directory: '' @ e)
      | None \<Rightarrow>
          (case RunCmd h [''go'', ''build'', ''-o'', outputPath @ ''/bootstrap'',
                          ''-ldflags'', ''-s -w'', outputPath] functionDir of
             Some e \<Rightarrow> Some (''go build failed: '' @ e)
           | None \<Rightarrow> None))"
| "Build h NodeJSRuntime functionDir outputPath =
     (if Stat h (Join [functionDir, ''package.json'']) = StatOk then
        (case CombinedOutput h [''npm'', ''install''] functionDir of
           (output, Some e) \<Rightarrow>
             Some (''npm install failed: '' @ e @ [CHR 0x0A] @ ''Output: '' @ output)
         | (output, None) \<Rightarrow> None)
      else None)"
| "Build h PythonRuntime functionDir outputPath =
     (if Stat h (Join [functionDir, ''requirements.txt'']) = StatOk then
        (case CombinedOutput h
                [''pip'', ''install'', ''-r'', ''requirements.txt'', ''-t'', functionDir]
                functionDir of
           (output, Some e) \<Rightarrow>
             Some (''pip install failed: '' @ e @ [CHR 0x0A] @ ''Output: '' @ output)
         | (output, None) \<Rightarrow> None)
      else None)"

section \<open>RuntimeFactory\<close>

datatype factory_error = UnsupportedRuntime string | DetectionFailed string

definition GetRuntime :: "unicode \<Rightarrow> string \<Rightarrow> factory_error + runtime" where
  "GetRuntime u awsRuntime =
     (let runtime = ToLower u awsRuntime in
      if runtime = ''provided.al2'' \<or> runtime = ''provided'' then Inr GolangRuntime
      else if HasPrefix runtime ''go'' then Inr GolangRuntime
      else if HasPrefix runtime ''node'' then Inr NodeJSRuntime
      else if HasPrefix runtime ''python'' then Inr PythonRuntime
      else Inl (UnsupportedRuntime awsRuntime))"

definition hasGoFiles :: "host \<Rightarrow> string \<Rightarrow> bool" where
  "hasGoFiles h dir = (length (Glob h (Join [dir, ''*.go''])) > 0)"

definition hasNodeJSFiles :: "host \<Rightarrow> string \<Rightarrow> bool" where
  "hasNodeJSFiles h dir =
     (if Stat h (Join [dir, ''package.json'']) = StatOk then True
      else length (Glob h (Join [dir, ''*.js''])) > 0)"

definition hasPythonFiles :: "host \<Rightarrow> string \<Rightarrow> bool" where
  "hasPythonFiles h dir =
     (if Stat h (Join [dir, ''requirements.txt'']) = StatOk then True
      else length (Glob h (Join [dir, ''*.py''])) > 0)"

definition GetRuntimeFromFunction :: "host \<Rightarrow> string \<Rightarrow> factory_error + runtime" where
  "GetRuntimeFromFunction h functionDir =
     (if hasGoFiles h functionDir then Inr GolangRuntime
      else if hasNodeJSFiles h functionDir then Inr NodeJSRuntime
      else if hasPythonFiles h functionDir then Inr PythonRuntime
      else Inl (DetectionFailed functionDir))"

subsection \<open>The synthesis path's resolver\<close>

datatype lambda_runtime =
  NODEJS_20_X | NODEJS_18_X | PYTHON_3_12 | PYTHON_3_11 | JAVA_17 | DOTNET_8 | RUBY_3_2
  | PROVIDED_AL2

definition toLambdaRuntime :: "unicode \<Rightarrow> string \<Rightarrow> lambda_runtime option" where
  "toLambdaRuntime u s =
     (let key = ToLower u (TrimSpace u s);
          key = RemoveAll key CHR ''_'';
          key = RemoveAll key CHR ''-'';
          key = RemoveAll key CHR '' ''
      in if key \<in> set [''nodejs20.x'', ''nodejs20x'', ''nodejs20''] then Some NODEJS_20_X
         else if key \<in> set [''nodejs18.x'', ''nodejs18x'', ''nodejs18''] then Some NODEJS_18_X
         else if key \<in> set [''python3.12'', ''python312''] then Some PYTHON_3_12
         else if key \<in> set [''python3.11'', ''python311''] then Some PYTHON_3_11
         else if key = ''java17'' then Some JAVA_17
         else if key \<in> set [''dotnet8'', ''dotnet8.0'', ''dotnet80'', ''dotnetcore8'']
           then Some DOTNET_8
         else if key \<in> set [''ruby3.2'', ''ruby32''] then Some RUBY_3_2
         else if key \<in> set [''provided.al2'', ''providedal2'', ''provided'', ''go1.x'',
                              ''go1x'', ''go'']
           then Some PROVIDED_AL2
         else None)"

section \<open>Configuration\<close>

record LambdaEvent =
  Type :: string
  Resource :: string
  Path :: string
  Method :: string

record LambdaFunc =
  FunctionName :: string
  Runtime :: string
  Handler :: string
  Code :: string
  MemorySize :: int
  Timeout :: int
  Events :: "LambdaEvent list"

record ApiConfig =
  Id :: string
  RootResourceId :: string
  ApiName :: string

text \<open>
  \<open>Functions\<close> is a Go map; the list holds its entries, one for each key.  A lookup of
  a missing key gives the zero value.
\<close>

record ServerlessConfig =
  Service :: string
  Stage :: string
  Api :: "ApiConfig option"
  Functions :: "(string \<times> LambdaFunc) list"
  RootPath :: string

definition zero_LambdaFunc :: LambdaFunc where
  "zero_LambdaFunc =
     \<lparr>FunctionName = [], Runtime = [], Handler = [], Code = [], MemorySize = 0, Timeout = 0,
      Events = []\<rparr>"

text \<open>
  A \<^verbatim>\<open>range\<close> over the map visits every entry once, in an order that the language
  leaves open and that can differ from one \<^verbatim>\<open>range\<close> to the next, also over the same
  map.  Every loop over the functions therefore takes the order of its visit as an
  argument; \<open>is_range c vs\<close> says that \<open>vs\<close> is such an order for the map of \<open>c\<close>.
\<close>

type_synonym visit = "(string \<times> LambdaFunc) list"

definition is_range :: "ServerlessConfig \<Rightarrow> visit \<Rightarrow> bool" where
  "is_range c vs = (distinct (map fst vs) \<and> set vs = set (Functions c))"

definition lookup_function :: "ServerlessConfig \<Rightarrow> string \<Rightarrow> LambdaFunc" where
  "lookup_function c funcName =
     (case map_of (Functions c) funcName of Some f \<Rightarrow> f | None \<Rightarrow> zero_LambdaFunc)"

section \<open>The local runner\<close>

datatype engine_error =
    RuntimeError string factory_error
  | BuildFailed string string
  | FailedToBuild string engine_error
  | TemplateNotFound
  | SamStartFailed string
  | WatcherCreateFailed string

text \<open>What Go turns into a panic: a method call on a nil runtime, closing a closed channel.\<close>

datatype fault = NilRuntime string | NilWatcher | CloseOfClosedChannel | NotReady

text \<open>The lines the runner writes with \<^verbatim>\<open>log.Printf\<close>, one constructor for each call site.\<close>

datatype logline =
    RuntimeNotSupported string factory_error
  | RuntimeDetected string string
  | SkippingBuild string string
  | BuiltOk string string
  | SettingUpWatchers
  | CouldNotWatch string string
  | Watching string string string
  | EventsClosed
  | EventSeen "32 word" string
  | WatcherError string
  | StopSignal
  | ErrorCopying string
  | Copied string
  | ChangesDetected "string list"
  | FailedRebuild string engine_error
  | Recompiled string string
  | NoBuildNeeded string
  | StoppingSAM
  | CouldNotCreateEnv string
  | StartingSAM "string list"
  | GatewayStarted
  | HotReloadEnabled

text \<open>
  What the runner does to the world, in the order it does it: the log lines, and every
  call that leaves the process.  \<open>BuildCall f rt p\<close> is the call \<^verbatim>\<open>rt.Build(p, p)\<close> that
  \<^verbatim>\<open>buildFunction\<close> makes for function \<open>f\<close>.
\<close>

datatype effect =
    Log logline
  | BuildCall string runtime string
  | CopyCall string string
  | WatchCall string
  | StartCall "string list"
  | WriteCall string
  | CloseStopChan
  | KillCall nat
  | WatcherCloseCall

record LocalRunner =
  cfg :: ServerlessConfig
  watcher :: "bool option"
  apiProcess :: "nat option"
  stopChan :: bool
  functionRuntimes :: "string \<rightharpoonup> runtime"
  watchedDirs :: "string set"
  trace :: "effect list"

text \<open>
  Field \<open>watcher\<close> is \<open>None\<close> for a nil pointer and \<open>Some closed\<close> otherwise; \<open>stopChan\<close>
  is \<open>True\<close> once the channel is closed; \<open>apiProcess\<close> holds the process id.  The two
  mutexes are left out: every function below runs to its end before the next one starts.
\<close>

definition do_effect :: "effect \<Rightarrow> LocalRunner \<Rightarrow> LocalRunner" where
  "do_effect e lr = lr\<lparr>trace := trace lr @ [e]\<rparr>"

definition NewLocalRunner :: "host \<Rightarrow> ServerlessConfig \<Rightarrow> engine_error + LocalRunner" where
  "NewLocalRunner h c =
     (case NewWatcher h of
        Some e \<Rightarrow> Inl (WatcherCreateFailed e)
      | None \<Rightarrow>
          Inr \<lparr>cfg = c, watcher = Some False, apiProcess = None, stopChan = False,
               functionRuntimes = Map.empty, watchedDirs = {}, trace = []\<rparr>)"

subsection \<open>Resolving the runtimes\<close>

definition resolve_runtime ::
  "host \<Rightarrow> ServerlessConfig \<Rightarrow> LambdaFunc \<Rightarrow> LocalRunner \<Rightarrow> LocalRunner \<times> (factory_error + runtime)"
where
  "resolve_runtime h c function lr =
     (let codePath = Join [RootPath c, Clean (Code function)];
          functionDir = Dir codePath
      in if Runtime function \<noteq> [] then
           (case GetRuntime (unicode_tables h) (Runtime function) of
              Inl err \<Rightarrow>
                (do_effect (Log (RuntimeNotSupported (Runtime function) err)) lr,
                 GetRuntimeFromFunction h functionDir)
            | Inr rt \<Rightarrow> (lr, Inr rt))
         else (lr, GetRuntimeFromFunction h functionDir))"

fun initializeRuntimes_loop ::
  "host \<Rightarrow> (string \<times> LambdaFunc) list \<Rightarrow> LocalRunner \<Rightarrow> LocalRunner \<times> engine_error option"
where
  "initializeRuntimes_loop h [] lr = (lr, None)"
| "initializeRuntimes_loop h ((funcName, function) # rest) lr =
     (case resolve_runtime h (cfg lr) function lr of
        (lr1, Inl err) \<Rightarrow> (lr1, Some (RuntimeError funcName err))
      | (lr1, Inr rt) \<Rightarrow>
          initializeRuntimes_loop h rest
            (do_effect (Log (RuntimeDetected funcName (Name rt)))
               (lr1\<lparr>functionRuntimes := (functionRuntimes lr1)(funcName \<mapsto> rt)\<rparr>)))"

definition initializeRuntimes ::
  "host \<Rightarrow> visit \<Rightarrow> LocalRunner \<Rightarrow> LocalRunner \<times> engine_error option"
where
  "initializeRuntimes h vs lr = initializeRuntimes_loop h vs lr"

subsection \<open>Building\<close>

fun getOutputPath :: "LocalRunner \<Rightarrow> LambdaFunc \<Rightarrow> runtime \<Rightarrow> string" where
  "getOutputPath lr function GolangRuntime = Join [RootPath (cfg lr), Clean (Code function)]"
| "getOutputPath lr function NodeJSRuntime = Join [RootPath (cfg lr), Clean (Code function)]"
| "getOutputPath lr function PythonRuntime =
     Dir (Join [RootPath (cfg lr), Clean (Code function)])"

definition buildFunction ::
  "host \<Rightarrow> string \<Rightarrow> LambdaFunc \<Rightarrow> runtime \<Rightarrow> LocalRunner \<Rightarrow> LocalRunner \<times> engine_error option"
where
  "buildFunction h funcName function rt lr =
     (let outputPath = getOutputPath lr function rt;
          lr1 = do_effect (BuildCall funcName rt outputPath) lr
      in case Build h rt outputPath outputPath of
           Some err \<Rightarrow> (lr1, Some (BuildFailed funcName err))
         | None \<Rightarrow> (do_effect (Log (BuiltOk funcName outputPath)) lr1, None))"

fun buildAllFunctions_loop ::
  "host \<Rightarrow> (string \<times> LambdaFunc) list \<Rightarrow> LocalRunner
     \<Rightarrow> fault + LocalRunner \<times> engine_error option"
where
  "buildAllFunctions_loop h [] lr = Inr (lr, None)"
| "buildAllFunctions_loop h ((funcName, function) # rest) lr =
     (case functionRuntimes lr funcName of
        None \<Rightarrow> Inl (NilRuntime funcName)
      | Some rt \<Rightarrow>
          if NeedsBuild rt then
            (case buildFunction h funcName function rt lr of
               (lr1, Some err) \<Rightarrow> Inr (lr1, Some (FailedToBuild funcName err))
             | (lr1, None) \<Rightarrow> buildAllFunctions_loop h rest lr1)
          else buildAllFunctions_loop h rest
                 (do_effect (Log (SkippingBuild funcName (Name rt))) lr))"

definition buildAllFunctions ::
  "host \<Rightarrow> visit \<Rightarrow> LocalRunner \<Rightarrow> fault + LocalRunner \<times> engine_error option"
where
  "buildAllFunctions h vs lr = buildAllFunctions_loop h vs lr"

subsection \<open>The gateway emulator and the watches\<close>

text \<open>
  The second \<^verbatim>\<open>os.Stat\<close> of the parameters file sees the file that
  \<^verbatim>\<open>createDefaultEnvFile\<close> has just written; a failed write leaves none.
\<close>

definition startLocalAPI :: "host \<Rightarrow> LocalRunner \<Rightarrow> LocalRunner \<times> engine_error option" where
  "startLocalAPI h lr =
     (let templatePath = ''cdk.out/local-dev-qrioso-example-dev.template.json'';
          envPath = ''env.json''
      in if Stat h templatePath = StatNotExist then (lr, Some TemplateNotFound)
         else
           let created =
                 (if Stat h envPath = StatNotExist
                  then (case WriteFile h envPath of
                          Some e \<Rightarrow>
                            (do_effect (Log (CouldNotCreateEnv e))
                               (do_effect (WriteCall envPath) lr), False)
                        | None \<Rightarrow> (do_effect (WriteCall envPath) lr, True))
                  else (lr, Stat h envPath = StatOk));
               cmdArgs =
                 [''local'', ''start-api'', ''--template'', templatePath, ''--port'', ''3000'',
                  ''--warm-containers'', ''EAGER'']
                 @ (if snd created then [''--env-vars'', envPath] else []);
               lr2 = do_effect (StartCall (''sam'' # cmdArgs))
                       (do_effect (Log (StartingSAM cmdArgs)) (fst created))
           in case StartCmd h (''sam'' # cmdArgs) of
                Inl e \<Rightarrow> (lr2, Some (SamStartFailed e))
              | Inr pid \<Rightarrow> (do_effect (Log GatewayStarted) (lr2\<lparr>apiProcess := Some pid\<rparr>), None))"

definition addWatchedDir ::
  "host \<Rightarrow> string \<Rightarrow> LocalRunner \<Rightarrow> fault + LocalRunner \<times> string option"
where
  "addWatchedDir h dirPath lr =
     (if dirPath \<in> watchedDirs lr then Inr (lr, None)
      else case watcher lr of
             None \<Rightarrow> Inl NilWatcher
           | Some closed \<Rightarrow>
               (let lr1 = do_effect (WatchCall dirPath) lr
                in if closed then Inr (lr1, Some ''fsnotify: watcher already closed'')
                   else case WatcherAdd h dirPath of
                          Some e \<Rightarrow> Inr (lr1, Some e)
                        | None \<Rightarrow>
                            Inr (lr1\<lparr>watchedDirs := insert dirPath (watchedDirs lr1)\<rparr>, None)))"

fun watch_matches :: "host \<Rightarrow> string list \<Rightarrow> LocalRunner \<Rightarrow> fault + LocalRunner" where
  "watch_matches h [] lr = Inr lr"
| "watch_matches h (m # ms) lr =
     (let matchDir = Dir m
      in case addWatchedDir h matchDir lr of
           Inl f \<Rightarrow> Inl f
         | Inr (lr1, Some e) \<Rightarrow>
             watch_matches h ms (do_effect (Log (CouldNotWatch matchDir e)) lr1)
         | Inr (lr1, None) \<Rightarrow> watch_matches h ms lr1)"

fun watch_patterns ::
  "host \<Rightarrow> LambdaFunc \<Rightarrow> string list \<Rightarrow> LocalRunner \<Rightarrow> fault + LocalRunner"
where
  "watch_patterns h function [] lr = Inr lr"
| "watch_patterns h function (pattern # ps) lr =
     (let absPattern = Join [RootPath (cfg lr), Code function, pattern]
      in case watch_matches h (Glob h absPattern) lr of
           Inl f \<Rightarrow> Inl f
         | Inr lr1 \<Rightarrow> watch_patterns h function ps lr1)"

fun setupFileWatchers_loop ::
  "host \<Rightarrow> (string \<times> LambdaFunc) list \<Rightarrow> LocalRunner \<Rightarrow> fault + LocalRunner"
where
  "setupFileWatchers_loop h [] lr = Inr lr"
| "setupFileWatchers_loop h ((funcName, function) # rest) lr =
     (let completeCodePath = Join [RootPath (cfg lr), Code function]
      in case addWatchedDir h completeCodePath lr of
           Inl f \<Rightarrow> Inl f
         | Inr (lr1, Some e) \<Rightarrow>
             setupFileWatchers_loop h rest
               (do_effect (Log (CouldNotWatch completeCodePath e)) lr1)
         | Inr (lr1, None) \<Rightarrow>
             (case functionRuntimes lr1 funcName of
                None \<Rightarrow> Inl (NilRuntime funcName)
              | Some rt \<Rightarrow>
                  (case watch_patterns h function (WatchPatterns rt)
                          (do_effect (Log (Watching completeCodePath funcName (Name rt))) lr1) of
                     Inl f \<Rightarrow> Inl f
                   | Inr lr2 \<Rightarrow> setupFileWatchers_loop h rest lr2)))"

definition setupFileWatchers :: "host \<Rightarrow> visit \<Rightarrow> LocalRunner \<Rightarrow> fault + LocalRunner" where
  "setupFileWatchers h vs lr =
     setupFileWatchers_loop h vs (do_effect (Log SettingUpWatchers) lr)"

subsection \<open>Start\<close>

text \<open>
  \<^verbatim>\<open>Start\<close> returns only when a step fails; after the last step it blocks in
  \<^verbatim>\<open>keepAlive\<close> while the reactor loop runs, which is the outcome \<open>Serving\<close>.  The
  diagnostic listing of \<^verbatim>\<open>debugFunctionInfo\<close> changes nothing and is not traced.  The
  three visits are those of the loops of \<^verbatim>\<open>initializeRuntimes\<close>,
  \<^verbatim>\<open>buildAllFunctions\<close> and \<^verbatim>\<open>setupFileWatchers\<close>.
\<close>

datatype start_result = StartFailed engine_error | Serving

definition Start ::
  "host \<Rightarrow> visit \<Rightarrow> visit \<Rightarrow> visit \<Rightarrow> LocalRunner \<Rightarrow> fault + LocalRunner \<times> start_result"
where
  "Start h vi vb vw lr =
     (case initializeRuntimes h vi lr of
        (lr1, Some err) \<Rightarrow> Inr (lr1, StartFailed err)
      | (lr1, None) \<Rightarrow>
          (case buildAllFunctions h vb lr1 of
             Inl f \<Rightarrow> Inl f
           | Inr (lr2, Some err) \<Rightarrow> Inr (lr2, StartFailed err)
           | Inr (lr2, None) \<Rightarrow>
               (case startLocalAPI h lr2 of
                  (lr3, Some err) \<Rightarrow> Inr (lr3, StartFailed err)
                | (lr3, None) \<Rightarrow>
                    (case setupFileWatchers h vw lr3 of
                       Inl f \<Rightarrow> Inl f
                     | Inr lr4 \<Rightarrow> Inr (do_effect (Log HotReloadEnabled) lr4, Serving)))))"

subsection \<open>Stop\<close>

text \<open>Closing a channel that is closed already panics.\<close>

definition close_chan :: "bool \<Rightarrow> fault + bool" where
  "close_chan closed = (if closed then Inl CloseOfClosedChannel else Inr True)"

text \<open>
  Nothing is ever sent on the stop channel, so the receive of the \<^verbatim>\<open>select\<close> is ready
  exactly when the channel is closed, and the \<^verbatim>\<open>default\<close> case runs otherwise.  The
  results of \<^verbatim>\<open>Kill\<close> and \<^verbatim>\<open>Close\<close> are dropped by the code.
\<close>

definition Stop :: "LocalRunner \<Rightarrow> fault + LocalRunner" where
  "Stop lr =
     (case (if stopChan lr then Inr lr
            else case close_chan (stopChan lr) of
                   Inl f \<Rightarrow> Inl f
                 | Inr c \<Rightarrow> Inr ((do_effect CloseStopChan lr)\<lparr>stopChan := c\<rparr>)) of
        Inl f \<Rightarrow> Inl f
      | Inr lr1 \<Rightarrow>
          (let lr2 = (case apiProcess lr1 of
                        Some pid \<Rightarrow> do_effect (KillCall pid) (do_effect (Log StoppingSAM) lr1)
                      | None \<Rightarrow> lr1);
               lr3 = (case watcher lr2 of
                        Some closed \<Rightarrow> (do_effect WatcherCloseCall lr2)\<lparr>watcher := Some True\<rparr>
                      | None \<Rightarrow> lr2)
           in Inr lr3))"

text \<open>\<open>n\<close> calls of \<^verbatim>\<open>Stop\<close>, one after the other.\<close>

fun Stop_times :: "nat \<Rightarrow> LocalRunner \<Rightarrow> fault + LocalRunner" where
  "Stop_times 0 lr = Inr lr"
| "Stop_times (Suc n) lr = (case Stop lr of Inl f \<Rightarrow> Inl f | Inr lr1 \<Rightarrow> Stop_times n lr1)"

subsection \<open>Events, ignore rules and owners\<close>

record Event =
  event_Name :: string
  event_Op :: "32 word"

definition fsnotify_Create :: "32 word" where "fsnotify_Create = 1"
definition fsnotify_Write :: "32 word" where "fsnotify_Write = 2"
definition fsnotify_Remove :: "32 word" where "fsnotify_Remove = 4"
definition fsnotify_Rename :: "32 word" where "fsnotify_Rename = 8"
definition fsnotify_Chmod :: "32 word" where "fsnotify_Chmod = 16"

definition shouldIgnoreEvent :: "Event \<Rightarrow> bool" where
  "shouldIgnoreEvent event =
     (let ignorePatterns =
            [''~$'', ''.swp'', ''.tmp'', ''.log'', ''/.git/'', ''/node_modules/'', ''.idea/''];
          fileName = Base (event_Name event)
      in list_ex (\<lambda>pattern. Contains (event_Name event) pattern \<or> HasSuffix fileName pattern)
           ignorePatterns)"

definition shouldIgnorePath :: "string \<Rightarrow> bool" where
  "shouldIgnorePath path =
     (let ignoreDirs = [''.git'', ''node_modules'', ''cdk.out'', ''tmp'']
      in list_ex (\<lambda>dir. Contains path dir) ignoreDirs)"

fun findFunctionByPath_loop :: "string \<Rightarrow> (string \<times> LambdaFunc) list \<Rightarrow> string \<Rightarrow> string" where
  "findFunctionByPath_loop root [] filePath = []"
| "findFunctionByPath_loop root ((funcName, function) # rest) filePath =
     (let codeDir = Dir (Code function);
          absCodeDir = Join [root, codeDir]
      in if HasPrefix filePath absCodeDir \<and> \<not> shouldIgnorePath filePath then funcName
         else findFunctionByPath_loop root rest filePath)"

definition findFunctionByPath :: "LocalRunner \<Rightarrow> visit \<Rightarrow> string \<Rightarrow> string" where
  "findFunctionByPath lr vs filePath = findFunctionByPath_loop (RootPath (cfg lr)) vs filePath"

definition Sha256Hash :: "host \<Rightarrow> string \<Rightarrow> string" where
  "Sha256Hash h input = sha256_hex h input"

text \<open>
  \<^verbatim>\<open>util.CopyCode\<close> reads the source file and writes it, with its mode and times, under
  the target directory; the host gives the outcome of that sequence.
\<close>

definition CopyCode :: "host \<Rightarrow> string \<Rightarrow> string \<Rightarrow> string option" where
  "CopyCode h sourcePath targetDir =
     (let fileName = Base sourcePath;
          targetPath = Join [targetDir, fileName]
      in CopyFile h sourcePath targetPath)"

definition handleFileCreation ::
  "host \<Rightarrow> visit \<Rightarrow> string \<Rightarrow> LocalRunner \<Rightarrow> LocalRunner"
where
  "handleFileCreation h vs filePath lr =
     (let funcName = findFunctionByPath lr vs filePath
      in if funcName \<noteq> [] then
           (let hash = Sha256Hash h funcName;
                assetDir = RootPath (cfg lr) @ ''/cdk.out/asset.'' @ hash;
                lr1 = do_effect (CopyCall filePath assetDir) lr
            in case CopyCode h filePath assetDir of
                 Some e \<Rightarrow> do_effect (Log (ErrorCopying e)) lr1
               | None \<Rightarrow> do_effect (Log (Copied (Base filePath))) lr1)
         else lr)"

subsection \<open>Rebuilding the changed functions\<close>

fun handleFileChange_loop :: "host \<Rightarrow> string list \<Rightarrow> LocalRunner \<Rightarrow> fault + LocalRunner" where
  "handleFileChange_loop h [] lr = Inr lr"
| "handleFileChange_loop h (funcName # rest) lr =
     (let function = lookup_function (cfg lr) funcName
      in case functionRuntimes lr funcName of
           None \<Rightarrow> Inl (NilRuntime funcName)
         | Some rt \<Rightarrow>
             if NeedsBuild rt then
               (case buildFunction h funcName function rt lr of
                  (lr1, Some err) \<Rightarrow>
                    handleFileChange_loop h rest (do_effect (Log (FailedRebuild funcName err)) lr1)
                | (lr1, None) \<Rightarrow>
                    handleFileChange_loop h rest
                      (do_effect (Log (Recompiled funcName (Name rt))) lr1))
             else handleFileChange_loop h rest (do_effect (Log (NoBuildNeeded (Name rt))) lr))"

definition handleFileChange :: "host \<Rightarrow> string list \<Rightarrow> LocalRunner \<Rightarrow> fault + LocalRunner" where
  "handleFileChange h changed lr =
     handleFileChange_loop h changed (do_effect (Log (ChangesDetected changed)) lr)"

subsection \<open>The reactor loop\<close>

text \<open>
  The debounce timer: \<open>deadline\<close> is the time at which an armed timer expires, \<open>tick\<close>
  says that a value waits in its channel.  Time is counted in milliseconds.  Before Go
  1.23 (or with \<^verbatim>\<open>asynctimerchan=1\<close>) \<^verbatim>\<open>Reset\<close> leaves a waiting value in the channel;
  since Go 1.23 it discards it.
\<close>

record timer =
  deadline :: "nat option"
  tick :: bool

definition timer_advance :: "nat \<Rightarrow> timer \<Rightarrow> timer" where
  "timer_advance t tm =
     (case deadline tm of
        Some d \<Rightarrow> if d \<le> t then \<lparr>deadline = None, tick = True\<rparr> else tm
      | None \<Rightarrow> tm)"

definition timer_Reset :: "host \<Rightarrow> nat \<Rightarrow> nat \<Rightarrow> timer \<Rightarrow> timer" where
  "timer_Reset h t d tm =
     \<lparr>deadline = Some (t + d), tick = (if asynctimerchan h then tick tm else False)\<rparr>"

definition timer_Stop :: "host \<Rightarrow> timer \<Rightarrow> timer" where
  "timer_Stop h tm = \<lparr>deadline = None, tick = (if asynctimerchan h then tick tm else False)\<rparr>"

text \<open>
  The state of \<^verbatim>\<open>watchForChanges\<close>: the runner, the loop's three variables, the clock, and
  whether the loop is still running.
\<close>

record reactor =
  runner :: LocalRunner
  changedFunctions :: "string list"
  changeSet :: "string set"
  debounceTimer :: timer
  now :: nat
  running :: bool

text \<open>
  One round of the \<^verbatim>\<open>select\<close>: which case was taken, and with what.  \<open>None\<close> is a
  receive from a closed channel.  An event is handled with up to two calls of
  \<^verbatim>\<open>findFunctionByPath\<close>, the one inside \<^verbatim>\<open>handleFileCreation\<close> and the loop's own;
  the round says in which order each of them visits the functions.
\<close>

datatype select_case =
    RecvEvent "Event option" visit visit
  | RecvTimer
  | RecvError "string option"
  | RecvStop

definition watchForChanges_init :: "LocalRunner \<Rightarrow> reactor" where
  "watchForChanges_init lr =
     \<lparr>runner = lr, changedFunctions = [], changeSet = {},
      debounceTimer = \<lparr>deadline = None, tick = False\<rparr>, now = 0, running = True\<rparr>"

definition on_event :: "host \<Rightarrow> Event \<Rightarrow> visit \<Rightarrow> visit \<Rightarrow> reactor \<Rightarrow> reactor" where
  "on_event h event vc vo r =
     (if event_Op event = fsnotify_Chmod \<or> shouldIgnoreEvent event then r
      else
        let lr1 = do_effect (Log (EventSeen (event_Op event) (event_Name event))) (runner r);
            lr2 = (if event_Op event AND fsnotify_Create = fsnotify_Create
                   then handleFileCreation h vc (event_Name event) lr1 else lr1);
            funcName = findFunctionByPath lr2 vo (event_Name event);
            r1 = r\<lparr>runner := lr2\<rparr>
        in if funcName \<noteq> [] then
             (let r2 = (if funcName \<notin> changeSet r1
                        then r1\<lparr>changeSet := insert funcName (changeSet r1),
                                changedFunctions := changedFunctions r1 @ [funcName]\<rparr>
                        else r1)
              in r2\<lparr>debounceTimer := timer_Reset h (now r2) 800 (debounceTimer r2)\<rparr>)
           else r1)"

definition on_timer :: "host \<Rightarrow> reactor \<Rightarrow> fault + reactor" where
  "on_timer h r =
     (if length (changedFunctions r) > 0 then
        (case handleFileChange h (changedFunctions r) (runner r) of
           Inl f \<Rightarrow> Inl f
         | Inr lr1 \<Rightarrow> Inr (r\<lparr>runner := lr1, changedFunctions := [], changeSet := {}\<rparr>))
      else Inr r)"

definition loop_return :: "host \<Rightarrow> reactor \<Rightarrow> reactor" where
  "loop_return h r = r\<lparr>debounceTimer := timer_Stop h (debounceTimer r), running := False\<rparr>"

text \<open>
  A round takes place \<open>dt\<close> milliseconds after the one before.  The timer case can be
  taken only when a value waits in the timer's channel, the stop case only when the stop
  channel is closed; a round that asks for a case that is not ready is \<open>NotReady\<close>.
\<close>

definition reactor_step :: "host \<Rightarrow> nat \<times> select_case \<Rightarrow> reactor \<Rightarrow> fault + reactor" where
  "reactor_step h inp r =
     (let t = now r + fst inp;
          r0 = r\<lparr>now := t, debounceTimer := timer_advance t (debounceTimer r)\<rparr>
      in if watcher (runner r0) = None then Inl NilWatcher
         else case snd inp of
           RecvEvent None vc vo \<Rightarrow>
             Inr (loop_return h (r0\<lparr>runner := do_effect (Log EventsClosed) (runner r0)\<rparr>))
         | RecvEvent (Some event) vc vo \<Rightarrow> Inr (on_event h event vc vo r0)
         | RecvTimer \<Rightarrow>
             if tick (debounceTimer r0)
             then on_timer h (r0\<lparr>debounceTimer := (debounceTimer r0)\<lparr>tick := False\<rparr>\<rparr>)
             else Inl NotReady
         | RecvError None \<Rightarrow> Inr (loop_return h r0)
         | RecvError (Some err) \<Rightarrow>
             Inr (r0\<lparr>runner := do_effect (Log (WatcherError err)) (runner r0)\<rparr>)
         | RecvStop \<Rightarrow>
             if stopChan (runner r0)
             then Inr (loop_return h (r0\<lparr>runner := do_effect (Log StopSignal) (runner r0)\<rparr>))
             else Inl NotReady)"

fun watchForChanges :: "host \<Rightarrow> (nat \<times> select_case) list \<Rightarrow> reactor \<Rightarrow> fault + reactor" where
  "watchForChanges h [] r = Inr r"
| "watchForChanges h (inp # inps) r =
     (if \<not> running r then Inr r
      else case reactor_step h inp r of
             Inl f \<Rightarrow> Inl f
           | Inr r1 \<Rightarrow> watchForChanges h inps r1)"

subsection \<open>Reading the trace and the rounds\<close>

text \<open>The functions for which \<^verbatim>\<open>Build\<close> was called, in the order of the calls.\<close>

fun built :: "effect \<Rightarrow> string list" where
  "built (BuildCall funcName rt outputPath) = [funcName]"
| "built e = []"

definition build_calls :: "LocalRunner \<Rightarrow> string list" where
  "build_calls lr = concat (map built (trace lr))"


text \<open>
  The directory that \<^verbatim>\<open>findFunctionByPath\<close> compares a path with, and the functions
  of the map for which the comparison succeeds.
\<close>

definition source_dir :: "ServerlessConfig \<Rightarrow> LambdaFunc \<Rightarrow> string" where
  "source_dir c function = Join [RootPath c, Dir (Code function)]"

definition candidate_owners :: "ServerlessConfig \<Rightarrow> string \<Rightarrow> string list" where
  "candidate_owners c filePath =
     map fst (filter (\<lambda>(funcName, function). HasPrefix filePath (source_dir c function))
                (Functions c))"

text \<open>
  An event belongs to function \<open>f\<close> when the loop does not drop it, its path contains
  none of the ignored strings, and \<open>f\<close> is the one function whose source directory is a
  prefix of the path: then every visit of the map finds \<open>f\<close>.  A burst is a run of
  rounds in which events are received, each with the time since the round before and
  the two visits.
\<close>

definition belongs_to :: "LocalRunner \<Rightarrow> string \<Rightarrow> Event \<Rightarrow> bool" where
  "belongs_to lr f ev =
     (event_Op ev \<noteq> fsnotify_Chmod \<and> \<not> shouldIgnoreEvent ev
      \<and> \<not> shouldIgnorePath (event_Name ev)
      \<and> set (candidate_owners (cfg lr) (event_Name ev)) = {f})"

text \<open>The loop runs with exactly \<open>f\<close> pending and the timer armed 800 ms ahead.\<close>

definition pending_one :: "string \<Rightarrow> reactor \<Rightarrow> bool" where
  "pending_one f r =
     (changedFunctions r = [f] \<and> changeSet r = {f}
      \<and> debounceTimer r = \<lparr>deadline = Some (now r + 800), tick = False\<rparr>
      \<and> running r \<and> watcher (runner r) \<noteq> None)"

definition burst_rounds ::
  "(nat \<times> Event \<times> visit \<times> visit) list \<Rightarrow> (nat \<times> select_case) list"
where
  "burst_rounds evs = map (\<lambda>(dt, ev, vc, vo). (dt, RecvEvent (Some ev) vc vo)) evs"

text \<open>
  For an entry of the function map: whether its resolved runtime needs a build, and what
  the call of \<^verbatim>\<open>Build\<close> that \<^verbatim>\<open>buildFunction\<close> makes for it returns.
\<close>

definition needs_build :: "LocalRunner \<Rightarrow> string \<times> LambdaFunc \<Rightarrow> bool" where
  "needs_build lr entry =
     (case functionRuntimes lr (fst entry) of Some rt \<Rightarrow> NeedsBuild rt | None \<Rightarrow> False)"

definition build_outcome :: "host \<Rightarrow> LocalRunner \<Rightarrow> string \<times> LambdaFunc \<Rightarrow> string option" where
  "build_outcome h lr entry =
     (case functionRuntimes lr (fst entry) of
        Some rt \<Rightarrow> Build h rt (getOutputPath lr (snd entry) rt) (getOutputPath lr (snd entry) rt)
      | None \<Rightarrow> None)"

section \<open>The owner of a path, as the specification words it\<close>

text \<open>
  The specification maps a path to its owner by longest-prefix match against the source
  directories of the functions: among the functions whose source directory is a prefix
  of the path, the one with the longest directory; no owner when there is none.
\<close>

fun longest_prefix_loop ::
  "ServerlessConfig \<Rightarrow> (string \<times> LambdaFunc) list \<Rightarrow> string \<Rightarrow> (string \<times> string) option
     \<Rightarrow> (string \<times> string) option"
where
  "longest_prefix_loop c [] filePath best = best"
| "longest_prefix_loop c ((funcName, function) # rest) filePath best =
     (let d = source_dir c function
      in if prefix d filePath
            \<and> (case best of None \<Rightarrow> True | Some (g, e) \<Rightarrow> length e < length d)
         then longest_prefix_loop c rest filePath (Some (funcName, d))
         else longest_prefix_loop c rest filePath best)"

definition spec_longest_prefix_owner :: "ServerlessConfig \<Rightarrow> string \<Rightarrow> string option" where
  "spec_longest_prefix_owner c filePath =
     map_option fst (longest_prefix_loop c (Functions c) filePath None)"

section \<open>Example hosts and projects\<close>

text \<open>
  Tables that leave every string as it is; they stand in where only ASCII strings occur.
  A host with an empty file system on which every command succeeds.
\<close>

definition plain_tables :: unicode where
  "plain_tables =
     \<lparr>MapToLower = (\<lambda>s. s), TrimFunc_IsSpace = (\<lambda>s. s), TrimRightFunc_IsSpace = (\<lambda>s. s)\<rparr>"

definition quiet_host :: host where
  "quiet_host =
     \<lparr>Stat = (\<lambda>p. StatNotExist), Glob = (\<lambda>p. []), MkdirAll = (\<lambda>p. None),
      RunCmd = (\<lambda>argv dir. None), CombinedOutput = (\<lambda>argv dir. ([], None)),
      StartCmd = (\<lambda>argv. Inr 4242), WriteFile = (\<lambda>p. None),
      NewWatcher = None, WatcherAdd = (\<lambda>p. None), CopyFile = (\<lambda>src dst. None),
      sha256_hex = (\<lambda>s. ''0f'' @ s), asynctimerchan = False, unicode_tables = plain_tables\<rparr>"

text \<open>The quiet host with the given files, and with the given matches for each pattern.\<close>

definition files_host :: "string list \<Rightarrow> (string \<times> string list) list \<Rightarrow> host" where
  "files_host files globs =
     quiet_host
       \<lparr>Stat := (\<lambda>p. if p \<in> set files then StatOk else StatNotExist),
        Glob := (\<lambda>p. case map_of globs p of Some ms \<Rightarrow> ms | None \<Rightarrow> [])\<rparr>"

text \<open>The quiet host on which the Go compiler fails in the given directories.\<close>

definition failing_host :: "string list \<Rightarrow> host" where
  "failing_host dirs =
     quiet_host
       \<lparr>RunCmd := (\<lambda>argv dir. if dir \<in> set dirs then Some ''exit status 1'' else None)\<rparr>"

definition lambda_func :: "string \<Rightarrow> string \<Rightarrow> LambdaFunc" where
  "lambda_func rt code =
     \<lparr>FunctionName = ''fn'', Runtime = rt, Handler = ''bootstrap'', Code = code,
      MemorySize = 128, Timeout = 30, Events = []\<rparr>"

definition project :: "(string \<times> LambdaFunc) list \<Rightarrow> ServerlessConfig" where
  "project fs = \<lparr>Service = ''demo'', Stage = ''dev'', Api = None, Functions = fs, RootPath = ''/app''\<rparr>"

definition fresh_runner :: "(string \<times> LambdaFunc) list \<Rightarrow> LocalRunner" where
  "fresh_runner fs =
     \<lparr>cfg = project fs, watcher = Some False, apiProcess = None, stopChan = False,
      functionRuntimes = Map.empty, watchedDirs = {}, trace = []\<rparr>"

text \<open>Four function directories: with every marker, without Go sources, with Python
  sources only, and with no marker at all.\<close>

definition host_all_markers :: host where
  "host_all_markers =
     files_host [''/app/fn/package.json'', ''/app/fn/requirements.txt'']
       [(''/app/fn/*.go'', [''/app/fn/main.go''])]"

definition host_node_python :: host where
  "host_node_python = files_host [''/app/fn/package.json'', ''/app/fn/requirements.txt''] []"

definition host_python_only :: host where
  "host_python_only = files_host [] [(''/app/fn/*.py'', [''/app/fn/handler.py''])]"

definition host_no_marker :: host where
  "host_no_marker = files_host [''/app/fn/README.md''] []"

text \<open>
  A project with two Go functions and a Node.js function, and its runner once the
  runtimes are resolved; a project in which one source directory lies inside another.
\<close>

definition demo_functions :: "(string \<times> LambdaFunc) list" where
  "demo_functions =
     [(''api'', lambda_func ''go1.x'' ''src/api/main.go''),
      (''jobs'', lambda_func ''provided.al2'' ''src/jobs/main.go''),
      (''web'', lambda_func ''nodejs20.x'' ''src/web/index.js'')]"

definition demo_runner :: LocalRunner where
  "demo_runner =
     (fresh_runner demo_functions)
       \<lparr>functionRuntimes :=
          [''api'' \<mapsto> GolangRuntime, ''jobs'' \<mapsto> GolangRuntime, ''web'' \<mapsto> NodeJSRuntime]\<rparr>"

definition nested_functions :: "(string \<times> LambdaFunc) list" where
  "nested_functions =
     [(''api'', lambda_func ''go1.x'' ''src/main.go''),
      (''users'', lambda_func ''go1.x'' ''src/users/main.go'')]"

text \<open>
  A project whose second function declares a runtime that \<^verbatim>\<open>GetRuntime\<close> does not know,
  and a host on which the directory of that function holds a Python source.
\<close>

definition legacy_functions :: "(string \<times> LambdaFunc) list" where
  "legacy_functions =
     [(''api'', lambda_func ''go1.x'' ''src/api/main.go''),
      (''legacy'', lambda_func ''java17'' ''src/legacy/Main.java'')]"

definition host_legacy_python :: host where
  "host_legacy_python = files_host [] [(''/app/src/legacy/*.py'', [''/app/src/legacy/handler.py''])]"

text \<open>The runner of the project while the gateway emulator runs as process 4242.\<close>

definition serving_runner :: LocalRunner where
  "serving_runner = demo_runner\<lparr>apiProcess := Some 4242\<rparr>"

text \<open>
  Writes to a source file of each function; the loop of the project with all three
  functions pending and the timer about to expire.
\<close>

definition api_event :: Event where
  "api_event = \<lparr>event_Name = ''/app/src/api/main.go'', event_Op = fsnotify_Write\<rparr>"

definition jobs_event :: Event where
  "jobs_event = \<lparr>event_Name = ''/app/src/jobs/main.go'', event_Op = fsnotify_Write\<rparr>"

definition web_event :: Event where
  "web_event = \<lparr>event_Name = ''/app/src/web/index.js'', event_Op = fsnotify_Write\<rparr>"

definition all_pending :: reactor where
  "all_pending =
     (watchForChanges_init demo_runner)
       \<lparr>changedFunctions := [''api'', ''jobs'', ''web''],
        changeSet := {''api'', ''jobs'', ''web''},
        debounceTimer := \<lparr>deadline = Some 800, tick = False\<rparr>\<rparr>"


section \<open>Basic facts\<close>

lemma do_effect_simps [simp]:
  "cfg (do_effect e lr) = cfg lr"
  "watcher (do_effect e lr) = watcher lr"
  "apiProcess (do_effect e lr) = apiProcess lr"
  "stopChan (do_effect e lr) = stopChan lr"
  "functionRuntimes (do_effect e lr) = functionRuntimes lr"
  "watchedDirs (do_effect e lr) = watchedDirs lr"
  "trace (do_effect e lr) = trace lr @ [e]"
  by (simp_all add: do_effect_def)

lemma findFunctionByPath_cfg:
  "cfg lr = cfg lr' \<Longrightarrow> findFunctionByPath lr vs p = findFunctionByPath lr' vs p"
  by (simp add: findFunctionByPath_def)

lemma findFunctionByPath_loop_ignored:
  "shouldIgnorePath p \<Longrightarrow> findFunctionByPath_loop root fs p = []"
  by (induction fs) (auto simp: Let_def)

lemma findFunctionByPath_ignored:
  "shouldIgnorePath p \<Longrightarrow> findFunctionByPath lr vs p = []"
  by (simp add: findFunctionByPath_def findFunctionByPath_loop_ignored)

lemma handleFileCreation_frame [simp]:
  "cfg (handleFileCreation h vs p lr) = cfg lr"
  "watcher (handleFileCreation h vs p lr) = watcher lr"
  "apiProcess (handleFileCreation h vs p lr) = apiProcess lr"
  "stopChan (handleFileCreation h vs p lr) = stopChan lr"
  "functionRuntimes (handleFileCreation h vs p lr) = functionRuntimes lr"
  "watchedDirs (handleFileCreation h vs p lr) = watchedDirs lr"
  by (simp_all add: handleFileCreation_def Let_def split: option.splits)

lemma handleFileCreation_no_owner:
  "findFunctionByPath lr vs p = [] \<Longrightarrow> handleFileCreation h vs p lr = lr"
  by (simp add: handleFileCreation_def)

text \<open>The loop's own lookup does not depend on what \<^verbatim>\<open>handleFileCreation\<close> did before.\<close>

lemma on_event_unfold:
  "on_event h ev vc vo r =
     (if event_Op ev = fsnotify_Chmod \<or> shouldIgnoreEvent ev then r
      else
        let lr2 = (if event_Op ev AND fsnotify_Create = fsnotify_Create
                   then handleFileCreation h vc (event_Name ev)
                          (do_effect (Log (EventSeen (event_Op ev) (event_Name ev))) (runner r))
                   else do_effect (Log (EventSeen (event_Op ev) (event_Name ev))) (runner r));
            funcName = findFunctionByPath (runner r) vo (event_Name ev)
        in if funcName \<noteq> [] then
             r\<lparr>runner := lr2,
               changeSet := (if funcName \<notin> changeSet r then insert funcName (changeSet r)
                             else changeSet r),
               changedFunctions := (if funcName \<notin> changeSet r
                                    then changedFunctions r @ [funcName]
                                    else changedFunctions r),
               debounceTimer := timer_Reset h (now r) 800 (debounceTimer r)\<rparr>
           else r\<lparr>runner := lr2\<rparr>)"
proof -
  let ?lr1 = "do_effect (Log (EventSeen (event_Op ev) (event_Name ev))) (runner r)"
  let ?lr2 = "if event_Op ev AND fsnotify_Create = fsnotify_Create
              then handleFileCreation h vc (event_Name ev) ?lr1 else ?lr1"
  have c: "cfg ?lr2 = cfg (runner r)" by simp
  have eq: "findFunctionByPath ?lr2 vo (event_Name ev)
              = findFunctionByPath (runner r) vo (event_Name ev)"
    using c by (rule findFunctionByPath_cfg)
  show ?thesis
    unfolding on_event_def Let_def eq by simp
qed

text \<open>An event for whose path the loop's lookup finds no owner leaves the loop's
  variables as they were.\<close>

lemma on_event_no_owner:
  assumes "findFunctionByPath (runner r) vo (event_Name ev) = []"
  shows "changedFunctions (on_event h ev vc vo r) = changedFunctions r
       \<and> changeSet (on_event h ev vc vo r) = changeSet r
       \<and> debounceTimer (on_event h ev vc vo r) = debounceTimer r
       \<and> now (on_event h ev vc vo r) = now r \<and> running (on_event h ev vc vo r) = running r"
  unfolding on_event_unfold Let_def assms by simp

lemma build_calls_do_effect [simp]:
  "build_calls (do_effect e lr) = build_calls lr @ built e"
  by (simp add: build_calls_def)

lemma buildFunction_frame:
  assumes "buildFunction h f fn rt lr = (lr1, res)"
  shows "cfg lr1 = cfg lr" "functionRuntimes lr1 = functionRuntimes lr"
    "watcher lr1 = watcher lr" "stopChan lr1 = stopChan lr" "apiProcess lr1 = apiProcess lr"
    "build_calls lr1 = build_calls lr @ [f]" "watchedDirs lr1 = watchedDirs lr"
  using assms by (auto simp: buildFunction_def Let_def split: option.splits)



lemma build_calls_handleFileCreation [simp]:
  "build_calls (handleFileCreation h vs p lr) = build_calls lr"
  by (simp add: handleFileCreation_def Let_def split: option.splits)

lemma on_event_frame:
  "cfg (runner (on_event h ev vc vo r)) = cfg (runner r)"
  "functionRuntimes (runner (on_event h ev vc vo r)) = functionRuntimes (runner r)"
  "watcher (runner (on_event h ev vc vo r)) = watcher (runner r)"
  "stopChan (runner (on_event h ev vc vo r)) = stopChan (runner r)"
  "build_calls (runner (on_event h ev vc vo r)) = build_calls (runner r)"
  "running (on_event h ev vc vo r) = running r"
  "now (on_event h ev vc vo r) = now r"
  by (simp_all add: on_event_def Let_def)





lemma getOutputPath_cfg: "cfg lr1 = cfg lr \<Longrightarrow> getOutputPath lr1 fn rt = getOutputPath lr fn rt"
  by (cases rt) simp_all

lemma build_outcome_at:
  "cfg lr1 = cfg lr \<Longrightarrow> functionRuntimes lr1 = functionRuntimes lr
     \<Longrightarrow> build_outcome h lr1 e = build_outcome h lr e"
proof -
  assume c: "cfg lr1 = cfg lr" and r: "functionRuntimes lr1 = functionRuntimes lr"
  have "\<And>rt. getOutputPath lr1 (snd e) rt = getOutputPath lr (snd e) rt"
    using c by (rule getOutputPath_cfg)
  then show "build_outcome h lr1 e = build_outcome h lr e"
    unfolding build_outcome_def r by (simp split: option.split)
qed

lemma buildFunction_outcome:
  assumes "functionRuntimes lr f = Some rt"
  shows "snd (buildFunction h f fn rt lr) = map_option (BuildFailed f) (build_outcome h lr (f, fn))"
  unfolding buildFunction_def Let_def build_outcome_def using assms
  by (simp split: option.split)

lemma buildFunction_trace:
  "\<exists>more. trace (fst (buildFunction h f fn rt lr)) = trace lr @ more"
  unfolding buildFunction_def Let_def by (simp split: option.split)

lemma handleFileChange_loop_char:
  assumes "\<forall>f \<in> set fs. functionRuntimes lr f \<noteq> None"
  shows "\<exists>lr1 more. handleFileChange_loop h fs lr = Inr lr1
       \<and> trace lr1 = trace lr @ more
       \<and> build_calls lr1
           = build_calls lr @ filter (\<lambda>f. needs_build lr (f, lookup_function (cfg lr) f)) fs
       \<and> (\<forall>f \<in> set fs. \<forall>err.
             needs_build lr (f, lookup_function (cfg lr) f)
             \<and> build_outcome h lr (f, lookup_function (cfg lr) f) = Some err
             \<longrightarrow> Log (FailedRebuild f (BuildFailed f err)) \<in> set more)
       \<and> cfg lr1 = cfg lr \<and> functionRuntimes lr1 = functionRuntimes lr
       \<and> watcher lr1 = watcher lr \<and> stopChan lr1 = stopChan lr"
  using assms
proof (induction fs arbitrary: lr)
  case Nil
  show ?case by simp
next
  case (Cons f fs)
  from Cons.prems obtain rt where rt: "functionRuntimes lr f = Some rt" by auto
  let ?fn = "lookup_function (cfg lr) f"
  have ih: "\<And>lr2 :: LocalRunner. cfg lr2 = cfg lr \<Longrightarrow> functionRuntimes lr2 = functionRuntimes lr \<Longrightarrow>
     \<exists>lr1 more. handleFileChange_loop h fs lr2 = Inr lr1
       \<and> trace lr1 = trace lr2 @ more
       \<and> build_calls lr1
           = build_calls lr2 @ filter (\<lambda>f. needs_build lr (f, lookup_function (cfg lr) f)) fs
       \<and> (\<forall>f \<in> set fs. \<forall>err.
             needs_build lr (f, lookup_function (cfg lr) f)
             \<and> build_outcome h lr (f, lookup_function (cfg lr) f) = Some err
             \<longrightarrow> Log (FailedRebuild f (BuildFailed f err)) \<in> set more)
       \<and> cfg lr1 = cfg lr \<and> functionRuntimes lr1 = functionRuntimes lr
       \<and> watcher lr1 = watcher lr2 \<and> stopChan lr1 = stopChan lr2"
  proof -
    fix lr2 :: LocalRunner assume c: "cfg lr2 = cfg lr" and r: "functionRuntimes lr2 = functionRuntimes lr"
    have nb: "\<And>e. needs_build lr2 e = needs_build lr e" by (simp add: needs_build_def r)
    have bo: "\<And>e. build_outcome h lr2 e = build_outcome h lr e"
      using c r by (rule build_outcome_at)
    have "\<forall>f \<in> set fs. functionRuntimes lr2 f \<noteq> None" using Cons.prems r by simp
    from Cons.IH [OF this] show "?thesis lr2" unfolding nb bo c r by simp
  qed
  show ?case
  proof (cases "NeedsBuild rt")
    case False
    let ?lr2 = "do_effect (Log (NoBuildNeeded (Name rt))) lr"
    have nb: "\<not> needs_build lr (f, ?fn)" using rt False by (simp add: needs_build_def)
    from ih [of ?lr2] obtain lr1 more where
      a: "handleFileChange_loop h fs ?lr2 = Inr lr1" and t: "trace lr1 = trace ?lr2 @ more"
      and rest: "build_calls lr1
           = build_calls ?lr2 @ filter (\<lambda>f. needs_build lr (f, lookup_function (cfg lr) f)) fs"
        "\<forall>f \<in> set fs. \<forall>err.
             needs_build lr (f, lookup_function (cfg lr) f)
             \<and> build_outcome h lr (f, lookup_function (cfg lr) f) = Some err
             \<longrightarrow> Log (FailedRebuild f (BuildFailed f err)) \<in> set more"
        "cfg lr1 = cfg lr" "functionRuntimes lr1 = functionRuntimes lr"
        "watcher lr1 = watcher ?lr2" "stopChan lr1 = stopChan ?lr2"
      by auto
    have step: "handleFileChange_loop h (f # fs) lr = Inr lr1"
      using rt False a by (simp add: Let_def)
    have t': "trace lr1 = trace lr @ (Log (NoBuildNeeded (Name rt)) # more)" using t by simp
    show ?thesis
      apply (rule exI [of _ lr1], rule exI [of _ "Log (NoBuildNeeded (Name rt)) # more"])
      using step t' rest nb by auto
  next
    case True
    obtain lr2 res where b: "buildFunction h f ?fn rt lr = (lr2, res)"
      by (cases "buildFunction h f ?fn rt lr") auto
    note fr = buildFunction_frame [OF b]
    have res: "res = map_option (BuildFailed f) (build_outcome h lr (f, ?fn))"
      using buildFunction_outcome [OF rt, of h ?fn] b by simp
    have nb: "needs_build lr (f, ?fn)" using rt True by (simp add: needs_build_def)
    from buildFunction_trace [of h f ?fn rt lr] b obtain m0 where m0: "trace lr2 = trace lr @ m0"
      by auto
    define e where "e = (case res of Some err \<Rightarrow> FailedRebuild f err | None \<Rightarrow> Recompiled f (Name rt))"
    let ?lr3 = "do_effect (Log e) lr2"
    have step: "handleFileChange_loop h (f # fs) lr = handleFileChange_loop h fs ?lr3"
      using rt True b unfolding e_def by (cases res) (simp_all add: Let_def)
    from ih [of ?lr3] fr obtain lr1 more where
      a: "handleFileChange_loop h fs ?lr3 = Inr lr1" and t: "trace lr1 = trace ?lr3 @ more"
      and rest: "build_calls lr1
           = build_calls ?lr3 @ filter (\<lambda>f. needs_build lr (f, lookup_function (cfg lr) f)) fs"
        "\<forall>f \<in> set fs. \<forall>err.
             needs_build lr (f, lookup_function (cfg lr) f)
             \<and> build_outcome h lr (f, lookup_function (cfg lr) f) = Some err
             \<longrightarrow> Log (FailedRebuild f (BuildFailed f err)) \<in> set more"
        "cfg lr1 = cfg lr" "functionRuntimes lr1 = functionRuntimes lr"
        "watcher lr1 = watcher ?lr3" "stopChan lr1 = stopChan ?lr3"
      by auto
    have t': "trace lr1 = trace lr @ (m0 @ Log e # more)" using t m0 by simp
    have logged: "\<forall>err. build_outcome h lr (f, ?fn) = Some err
                    \<longrightarrow> Log (FailedRebuild f (BuildFailed f err)) \<in> set (m0 @ Log e # more)"
      unfolding e_def res by auto
    have bc: "build_calls lr1
           = build_calls lr @ filter (\<lambda>f. needs_build lr (f, lookup_function (cfg lr) f)) (f # fs)"
      using rest(1) fr(6) nb by simp
    show ?thesis
      apply (rule exI [of _ lr1], rule exI [of _ "m0 @ Log e # more"])
      using step a t' bc rest logged fr by auto
  qed
qed


lemma handleFileChange_char:
  assumes "\<forall>f \<in> set fs. functionRuntimes lr f \<noteq> None"
  shows "\<exists>lr1. handleFileChange h fs lr = Inr lr1
       \<and> build_calls lr1
           = build_calls lr @ filter (\<lambda>f. needs_build lr (f, lookup_function (cfg lr) f)) fs
       \<and> (\<forall>f \<in> set fs. \<forall>err.
             needs_build lr (f, lookup_function (cfg lr) f)
             \<and> build_outcome h lr (f, lookup_function (cfg lr) f) = Some err
             \<longrightarrow> Log (FailedRebuild f (BuildFailed f err)) \<in> set (trace lr1))
       \<and> cfg lr1 = cfg lr \<and> functionRuntimes lr1 = functionRuntimes lr
       \<and> watcher lr1 = watcher lr \<and> stopChan lr1 = stopChan lr"
proof -
  let ?lr0 = "do_effect (Log (ChangesDetected fs)) lr"
  have nb: "\<And>e. needs_build ?lr0 e = needs_build lr e" by (simp add: needs_build_def)
  have bo: "\<And>e. build_outcome h ?lr0 e = build_outcome h lr e"
    by (rule build_outcome_at) simp_all
  have "\<forall>f \<in> set fs. functionRuntimes ?lr0 f \<noteq> None" using assms by simp
  from handleFileChange_loop_char [OF this, of h] obtain lr1 more where
    "handleFileChange_loop h fs ?lr0 = Inr lr1" "trace lr1 = trace ?lr0 @ more"
    "build_calls lr1
           = build_calls ?lr0 @ filter (\<lambda>f. needs_build lr (f, lookup_function (cfg lr) f)) fs"
    "\<forall>f \<in> set fs. \<forall>err.
             needs_build lr (f, lookup_function (cfg lr) f)
             \<and> build_outcome h lr (f, lookup_function (cfg lr) f) = Some err
             \<longrightarrow> Log (FailedRebuild f (BuildFailed f err)) \<in> set more"
    "cfg lr1 = cfg lr" "functionRuntimes lr1 = functionRuntimes lr"
    "watcher lr1 = watcher lr" "stopChan lr1 = stopChan lr"
    unfolding nb bo by auto
  then show ?thesis
    unfolding handleFileChange_def by (intro exI [of _ lr1]) auto
qed

lemma on_event_ignored: "shouldIgnoreEvent ev \<Longrightarrow> on_event h ev vc vo r = r"
  by (simp add: on_event_def)

section \<open>Runtime detection and resolution\<close>

text \<open>The three marker tests, read on the host.\<close>

lemma marker_tests:
  "hasGoFiles h d = (Glob h (Join [d, ''*.go'']) \<noteq> [])"
  "hasNodeJSFiles h d
     = (Stat h (Join [d, ''package.json'']) = StatOk \<or> Glob h (Join [d, ''*.js'']) \<noteq> [])"
  "hasPythonFiles h d
     = (Stat h (Join [d, ''requirements.txt'']) = StatOk \<or> Glob h (Join [d, ''*.py'']) \<noteq> [])"
  by (simp_all add: hasGoFiles_def hasNodeJSFiles_def hasPythonFiles_def)

text \<open>
  Claim C2.  Detection prefers the Go kind to the Node.js kind to the Python kind whatever
  markers the function directory holds.  A Go source decides for Go, also beside a
  \<^verbatim>\<open>package.json\<close> or a \<^verbatim>\<open>requirements.txt\<close>; without Go sources, a \<^verbatim>\<open>package.json\<close> or
  a JavaScript source decides for Node.js, also beside Python markers; without either, a
  \<^verbatim>\<open>requirements.txt\<close> or a Python source decides for Python; and a directory with none
  of these markers gives a detection error and no runtime.
\<close>

theorem GetRuntimeFromFunction_precedence:
  "(Glob h (Join [d, ''*.go'']) \<noteq> [] \<longrightarrow> GetRuntimeFromFunction h d = Inr GolangRuntime)
   \<and> (Glob h (Join [d, ''*.go'']) = []
        \<and> (Stat h (Join [d, ''package.json'']) = StatOk \<or> Glob h (Join [d, ''*.js'']) \<noteq> [])
      \<longrightarrow> GetRuntimeFromFunction h d = Inr NodeJSRuntime)
   \<and> (Glob h (Join [d, ''*.go'']) = []
        \<and> Stat h (Join [d, ''package.json'']) \<noteq> StatOk \<and> Glob h (Join [d, ''*.js'']) = []
        \<and> (Stat h (Join [d, ''requirements.txt'']) = StatOk \<or> Glob h (Join [d, ''*.py'']) \<noteq> [])
      \<longrightarrow> GetRuntimeFromFunction h d = Inr PythonRuntime)
   \<and> (Glob h (Join [d, ''*.go'']) = []
        \<and> Stat h (Join [d, ''package.json'']) \<noteq> StatOk \<and> Glob h (Join [d, ''*.js'']) = []
        \<and> Stat h (Join [d, ''requirements.txt'']) \<noteq> StatOk \<and> Glob h (Join [d, ''*.py'']) = []
      \<longrightarrow> GetRuntimeFromFunction h d = Inl (DetectionFailed d))"
proof -
  have go: "Glob h (Join [d, ''*.go'']) \<noteq> [] \<Longrightarrow> GetRuntimeFromFunction h d = Inr GolangRuntime"
    by (simp add: GetRuntimeFromFunction_def marker_tests)
  have node: "Glob h (Join [d, ''*.go'']) = [] \<Longrightarrow> hasNodeJSFiles h d
                \<Longrightarrow> GetRuntimeFromFunction h d = Inr NodeJSRuntime"
    by (simp add: GetRuntimeFromFunction_def marker_tests(1))
  have python: "Glob h (Join [d, ''*.go'']) = [] \<Longrightarrow> \<not> hasNodeJSFiles h d \<Longrightarrow> hasPythonFiles h d
                \<Longrightarrow> GetRuntimeFromFunction h d = Inr PythonRuntime"
    by (simp add: GetRuntimeFromFunction_def marker_tests(1))
  have none: "Glob h (Join [d, ''*.go'']) = [] \<Longrightarrow> \<not> hasNodeJSFiles h d \<Longrightarrow> \<not> hasPythonFiles h d
                \<Longrightarrow> GetRuntimeFromFunction h d = Inl (DetectionFailed d)"
    by (simp add: GetRuntimeFromFunction_def marker_tests(1))
  show ?thesis
    using go node python none unfolding marker_tests(2,3) by blast
qed

lemma markers_all:
  "hasGoFiles host_all_markers ''/app/fn'' \<and> hasNodeJSFiles host_all_markers ''/app/fn''
   \<and> hasPythonFiles host_all_markers ''/app/fn''"
  by code_simp

lemma markers_node_python:
  "\<not> hasGoFiles host_node_python ''/app/fn'' \<and> hasNodeJSFiles host_node_python ''/app/fn''
   \<and> hasPythonFiles host_node_python ''/app/fn''"
  by code_simp

lemma markers_python_only:
  "\<not> hasGoFiles host_python_only ''/app/fn'' \<and> \<not> hasNodeJSFiles host_python_only ''/app/fn''
   \<and> hasPythonFiles host_python_only ''/app/fn''"
  by code_simp

lemma markers_none:
  "\<not> hasGoFiles host_no_marker ''/app/fn'' \<and> \<not> hasNodeJSFiles host_no_marker ''/app/fn''
   \<and> \<not> hasPythonFiles host_no_marker ''/app/fn''"
  by code_simp

theorem GetRuntimeFromFunction_precedence_witness:
  "(hasGoFiles host_all_markers ''/app/fn'' \<and> hasNodeJSFiles host_all_markers ''/app/fn''
      \<and> hasPythonFiles host_all_markers ''/app/fn''
      \<and> GetRuntimeFromFunction host_all_markers ''/app/fn'' = Inr GolangRuntime) \<and>
   (\<not> hasGoFiles host_node_python ''/app/fn'' \<and> hasNodeJSFiles host_node_python ''/app/fn''
      \<and> hasPythonFiles host_node_python ''/app/fn''
      \<and> GetRuntimeFromFunction host_node_python ''/app/fn'' = Inr NodeJSRuntime) \<and>
   (\<not> hasGoFiles host_python_only ''/app/fn'' \<and> \<not> hasNodeJSFiles host_python_only ''/app/fn''
      \<and> hasPythonFiles host_python_only ''/app/fn''
      \<and> GetRuntimeFromFunction host_python_only ''/app/fn'' = Inr PythonRuntime) \<and>
   (\<not> hasGoFiles host_no_marker ''/app/fn'' \<and> \<not> hasNodeJSFiles host_no_marker ''/app/fn''
      \<and> \<not> hasPythonFiles host_no_marker ''/app/fn''
      \<and> GetRuntimeFromFunction host_no_marker ''/app/fn'' = Inl (DetectionFailed ''/app/fn''))"
proof -
  have r1: "GetRuntimeFromFunction host_all_markers ''/app/fn'' = Inr GolangRuntime"
    using GetRuntimeFromFunction_precedence [of host_all_markers "''/app/fn''"] markers_all
    unfolding marker_tests by simp
  have r2: "GetRuntimeFromFunction host_node_python ''/app/fn'' = Inr NodeJSRuntime"
    using GetRuntimeFromFunction_precedence [of host_node_python "''/app/fn''"]
      markers_node_python
    unfolding marker_tests by simp
  have r3: "GetRuntimeFromFunction host_python_only ''/app/fn'' = Inr PythonRuntime"
    using GetRuntimeFromFunction_precedence [of host_python_only "''/app/fn''"]
      markers_python_only
    unfolding marker_tests by simp
  have r4: "GetRuntimeFromFunction host_no_marker ''/app/fn'' = Inl (DetectionFailed ''/app/fn'')"
    using GetRuntimeFromFunction_precedence [of host_no_marker "''/app/fn''"] markers_none
    unfolding marker_tests by simp
  show ?thesis
    using markers_all markers_node_python markers_python_only markers_none r1 r2 r3 r4
    by simp
qed

text \<open>
  Claim C7.  \<^verbatim>\<open>GetRuntime\<close> folds the case of the declared identifier and does nothing
  else to it: \<^verbatim>\<open>provided.al2\<close> resolves to the Go kind and \<^verbatim>\<open>Provided_AL2\<close>, which
  differs from it in case and in one separator, is rejected as unsupported.  The resolver
  of the synthesis path, \<^verbatim>\<open>toLambdaRuntime\<close>, removes the separators and gives both the
  same runtime.  Both identifiers are ASCII, so this holds whatever the Unicode tables
  are.
\<close>

theorem GetRuntime_keeps_separators:
  "GetRuntime u ''provided.al2'' = Inr GolangRuntime \<and>
   GetRuntime u ''Provided_AL2'' = Inl (UnsupportedRuntime ''Provided_AL2'') \<and>
   toLambdaRuntime u ''provided.al2'' = Some PROVIDED_AL2 \<and>
   toLambdaRuntime u ''Provided_AL2'' = Some PROVIDED_AL2"
proof -
  have l1: "ToLower u ''provided.al2'' = ''provided.al2''"
    by (simp add: ToLower_def is_ascii_def lower_char_def lower_table_def)
  have l2: "ToLower u ''Provided_AL2'' = ''provided_al2''"
    by (simp add: ToLower_def is_ascii_def lower_char_def lower_table_def)
  have t1: "TrimSpace u ''provided.al2'' = ''provided.al2''"
    by (simp add: TrimSpace_def is_ascii_def is_space_def)
  have t2: "TrimSpace u ''Provided_AL2'' = ''Provided_AL2''"
    by (simp add: TrimSpace_def is_ascii_def is_space_def)
  have g1: "GetRuntime u ''provided.al2'' = Inr GolangRuntime"
    unfolding GetRuntime_def l1 by simp
  have g2: "GetRuntime u ''Provided_AL2'' = Inl (UnsupportedRuntime ''Provided_AL2'')"
    unfolding GetRuntime_def l2 by (simp add: HasPrefix_def)
  have s1: "toLambdaRuntime u ''provided.al2'' = Some PROVIDED_AL2"
    unfolding toLambdaRuntime_def t1 l1 by (simp add: RemoveAll_def)
  have s2: "toLambdaRuntime u ''Provided_AL2'' = Some PROVIDED_AL2"
    unfolding toLambdaRuntime_def t2 l2 by (simp add: RemoveAll_def)
  show ?thesis
    using g1 g2 s1 s2 by simp
qed

text \<open>Identifiers that differ in letter case only resolve alike.\<close>

lemma GetRuntime_case_insensitive:
  assumes "ToLower u s = ToLower u t"
  shows "(case (GetRuntime u s, GetRuntime u t) of
            (Inr a, Inr b) \<Rightarrow> a = b
          | (Inl e, Inl f) \<Rightarrow> True
          | (Inl e, Inr b) \<Rightarrow> False
          | (Inr a, Inl f) \<Rightarrow> False)"
proof -
  define k where "k = ToLower u t"
  have s: "ToLower u s = k" using assms k_def by simp
  have t: "ToLower u t = k" using k_def by simp
  show ?thesis
    unfolding GetRuntime_def Let_def s t
    by (cases "k = ''provided.al2'' \<or> k = ''provided''"; cases "HasPrefix k ''go''";
        cases "HasPrefix k ''node''"; cases "HasPrefix k ''python''") simp_all
qed

section \<open>Owners and ignore rules\<close>

text \<open>
  Claim C10.  A path that contains one of the strings \<^verbatim>\<open>.git\<close>, \<^verbatim>\<open>node_modules\<close>,
  \<^verbatim>\<open>cdk.out\<close>, \<^verbatim>\<open>tmp\<close> anywhere has no owner, whatever the functions are, and an
  event on it leaves the pending functions and the timer as they were: it triggers no
  rebuild, also when the string is part of a longer name inside a function's source tree.
\<close>

theorem findFunctionByPath_ignores_substring:
  assumes "Contains p ''.git'' \<or> Contains p ''node_modules'' \<or> Contains p ''cdk.out''
           \<or> Contains p ''tmp''"
  shows "findFunctionByPath (runner r) vs p = []
       \<and> changedFunctions (on_event h \<lparr>event_Name = p, event_Op = op\<rparr> vc vo r)
           = changedFunctions r
       \<and> changeSet (on_event h \<lparr>event_Name = p, event_Op = op\<rparr> vc vo r) = changeSet r
       \<and> debounceTimer (on_event h \<lparr>event_Name = p, event_Op = op\<rparr> vc vo r)
           = debounceTimer r"
proof -
  have ign: "shouldIgnorePath p"
    using assms by (auto simp: shouldIgnorePath_def)
  have none: "findFunctionByPath (runner r) vs p = []"
    using ign by (rule findFunctionByPath_ignored)
  have "findFunctionByPath (runner r) vo (event_Name \<lparr>event_Name = p, event_Op = op\<rparr>) = []"
    using ign by (simp add: findFunctionByPath_ignored)
  from on_event_no_owner [OF this] none show ?thesis by simp
qed

lemma tmpl_contains_tmp: "Contains ''/app/src/api/tmpl/page.go'' ''tmp''"
  by code_simp

lemma tpl_owner:
  "findFunctionByPath demo_runner (rev demo_functions) ''/app/src/api/tpl/page.go'' = ''api''"
  by code_simp

theorem findFunctionByPath_ignores_substring_witness:
  "Contains ''/app/src/api/tmpl/page.go'' ''tmp''
   \<and> findFunctionByPath demo_runner (rev demo_functions) ''/app/src/api/tmpl/page.go'' = []
   \<and> findFunctionByPath demo_runner (rev demo_functions) ''/app/src/api/tpl/page.go'' = ''api''
   \<and> changedFunctions
        (on_event quiet_host \<lparr>event_Name = ''/app/src/api/tmpl/page.go'', event_Op = fsnotify_Write\<rparr>
           demo_functions (rev demo_functions) (watchForChanges_init demo_runner)) = []"
  using tmpl_contains_tmp tpl_owner
    findFunctionByPath_ignores_substring
      [where p = "''/app/src/api/tmpl/page.go''" and r = "watchForChanges_init demo_runner"
         and h = quiet_host and op = fsnotify_Write and vs = "rev demo_functions"
         and vc = demo_functions and vo = "rev demo_functions"]
  by (simp add: watchForChanges_init_def)

text \<open>
  Claim C4, as the specification words it, does not hold: when the range over the
  functions visits the function \<^verbatim>\<open>api\<close> in \<^verbatim>\<open>src\<close> before the function \<^verbatim>\<open>users\<close> in
  \<^verbatim>\<open>src/users\<close>, a file of \<^verbatim>\<open>src/users\<close> is given to \<^verbatim>\<open>api\<close>, while the longest
  matching source directory is that of \<^verbatim>\<open>users\<close>.
\<close>

theorem findFunctionByPath_not_longest_prefix:
  "is_range (cfg (fresh_runner nested_functions)) nested_functions
   \<and> findFunctionByPath (fresh_runner nested_functions) nested_functions
         ''/app/src/users/handler.go'' = ''api''
   \<and> spec_longest_prefix_owner (cfg (fresh_runner nested_functions)) ''/app/src/users/handler.go''
       = Some ''users''"
  by (simp add: is_range_def fresh_runner_def nested_functions_def) code_simp

lemma findFunctionByPath_loop_find:
  "findFunctionByPath_loop root fs p =
     (if shouldIgnorePath p then []
      else case find (\<lambda>(funcName, function). HasPrefix p (Join [root, Dir (Code function)])) fs of
             None \<Rightarrow> []
           | Some (funcName, function) \<Rightarrow> funcName)"
  by (induction fs) (auto simp: Let_def)

text \<open>
  Claim C4, amended.  The owner of a path is the first function, in the order in which
  the lookup's range visits the functions, whose source directory is a prefix of the path
  as a string, unless the path contains one of the ignored strings; there is no owner
  otherwise.  An event for whose path the loop's lookup finds no owner leaves the pending
  functions and the timer as they were.
\<close>

theorem findFunctionByPath_first_match:
  "findFunctionByPath (runner r) vs p =
     (if shouldIgnorePath p then []
      else case find (\<lambda>(funcName, function). HasPrefix p (source_dir (cfg (runner r)) function))
                  vs of
             None \<Rightarrow> []
           | Some (funcName, function) \<Rightarrow> funcName)
   \<and> (findFunctionByPath (runner r) vs p = [] \<longrightarrow>
        changedFunctions (on_event h \<lparr>event_Name = p, event_Op = op\<rparr> vc vs r)
          = changedFunctions r
      \<and> changeSet (on_event h \<lparr>event_Name = p, event_Op = op\<rparr> vc vs r) = changeSet r
      \<and> debounceTimer (on_event h \<lparr>event_Name = p, event_Op = op\<rparr> vc vs r)
          = debounceTimer r)"
  using on_event_no_owner [of r vs "\<lparr>event_Name = p, event_Op = op\<rparr>" h vc]
  by (simp add: findFunctionByPath_def findFunctionByPath_loop_find source_dir_def)

lemma outside_no_owner:
  "findFunctionByPath demo_runner (rev demo_functions) ''/srv/other/main.go'' = []"
  by code_simp

theorem findFunctionByPath_first_match_witness:
  "findFunctionByPath demo_runner (rev demo_functions) ''/srv/other/main.go'' = []
   \<and> changedFunctions
        (on_event quiet_host \<lparr>event_Name = ''/srv/other/main.go'', event_Op = fsnotify_Write\<rparr>
           demo_functions (rev demo_functions) (watchForChanges_init demo_runner)) = []
   \<and> debounceTimer
        (on_event quiet_host \<lparr>event_Name = ''/srv/other/main.go'', event_Op = fsnotify_Write\<rparr>
           demo_functions (rev demo_functions) (watchForChanges_init demo_runner))
       = \<lparr>deadline = None, tick = False\<rparr>"
  using outside_no_owner
    findFunctionByPath_first_match
      [where r = "watchForChanges_init demo_runner" and p = "''/srv/other/main.go''"
         and h = quiet_host and op = fsnotify_Write and vs = "rev demo_functions"
         and vc = demo_functions]
  by (simp add: watchForChanges_init_def)






section \<open>Stopping\<close>

lemma Stop_eq:
  "Stop lr =
     Inr ((case watcher lr of
             Some closed \<Rightarrow> (\<lambda>x. (do_effect WatcherCloseCall x)\<lparr>watcher := Some True\<rparr>)
           | None \<Rightarrow> (\<lambda>x. x))
          ((case apiProcess lr of
              Some pid \<Rightarrow> (\<lambda>x. do_effect (KillCall pid) (do_effect (Log StoppingSAM) x))
            | None \<Rightarrow> (\<lambda>x. x))
           (if stopChan lr then lr else (do_effect CloseStopChan lr)\<lparr>stopChan := True\<rparr>)))"
  by (simp add: Stop_def close_chan_def Let_def split: option.splits)

lemma Stop_fields:
  assumes "Stop lr = Inr lr1"
  shows "stopChan lr1" "apiProcess lr1 = apiProcess lr" "cfg lr1 = cfg lr"
    "watcher lr1 = map_option (\<lambda>c. True) (watcher lr)"
    "functionRuntimes lr1 = functionRuntimes lr" "watchedDirs lr1 = watchedDirs lr"
    "trace lr1 = trace lr @ (if stopChan lr then [] else [CloseStopChan])
        @ (case apiProcess lr of Some pid \<Rightarrow> [Log StoppingSAM, KillCall pid] | None \<Rightarrow> [])
        @ (case watcher lr of Some c \<Rightarrow> [WatcherCloseCall] | None \<Rightarrow> [])"
  using assms unfolding Stop_eq
  by (cases "stopChan lr"; cases "watcher lr"; cases "apiProcess lr"; simp add: do_effect_def; fastforce)+

lemma Stop_total: "\<exists>lr1. Stop lr = Inr lr1"
  unfolding Stop_eq by blast

text \<open>
  Claim C9.  Any number of calls of \<^verbatim>\<open>Stop\<close> in sequence complete without a panic.
  The stop channel is closed by the first call only, so it is closed once at most; from
  the first call on the stop is signalled, the watcher is closed, and the gateway
  emulator, when there is one, has been sent the kill.
\<close>

theorem Stop_idempotent:
  "\<exists>lr1. Stop_times n lr = Inr lr1
     \<and> count_list (trace lr1) CloseStopChan
         = count_list (trace lr) CloseStopChan + (if 0 < n \<and> \<not> stopChan lr then 1 else 0)
     \<and> stopChan lr1 = (stopChan lr \<or> 0 < n)
     \<and> watcher lr1 = (if 0 < n then map_option (\<lambda>c. True) (watcher lr) else watcher lr)
     \<and> apiProcess lr1 = apiProcess lr
     \<and> (0 < n \<longrightarrow> (\<forall>pid. apiProcess lr = Some pid \<longrightarrow> KillCall pid \<in> set (trace lr1)))
     \<and> (0 < n \<longrightarrow> watcher lr \<noteq> None \<longrightarrow> WatcherCloseCall \<in> set (trace lr1))"
proof (induction n arbitrary: lr)
  case 0
  show ?case by simp
next
  case (Suc n)
  obtain lr2 where s: "Stop lr = Inr lr2" using Stop_total by blast
  note f = Stop_fields [OF s]
  from Suc.IH [of lr2] obtain lr1 where
    run: "Stop_times n lr2 = Inr lr1"
    and cnt: "count_list (trace lr1) CloseStopChan
         = count_list (trace lr2) CloseStopChan + (if 0 < n \<and> \<not> stopChan lr2 then 1 else 0)"
    and sc: "stopChan lr1 = (stopChan lr2 \<or> 0 < n)"
    and w: "watcher lr1 = (if 0 < n then map_option (\<lambda>c. True) (watcher lr2) else watcher lr2)"
    and ap: "apiProcess lr1 = apiProcess lr2"
    by blast
  have grow: "\<exists>more. trace lr1 = trace lr2 @ more"
    using run
  proof (induction n arbitrary: lr2)
    case 0
    then show ?case by simp
  next
    case (Suc n)
    obtain lr3 where s3: "Stop lr2 = Inr lr3" using Stop_total by blast
    from Suc.prems s3 have "Stop_times n lr3 = Inr lr1" by simp
    from Suc.IH [OF this] obtain more where "trace lr1 = trace lr3 @ more" by blast
    with Stop_fields(7) [OF s3] show ?case by simp
  qed
  then obtain more where more: "trace lr1 = trace lr2 @ more" by blast
  have c2: "count_list (trace lr2) CloseStopChan
         = count_list (trace lr) CloseStopChan + (if stopChan lr then 0 else 1)"
    unfolding f(7) by (simp split: option.splits)
  have "Stop_times (Suc n) lr = Inr lr1" using s run by simp
  moreover have "count_list (trace lr1) CloseStopChan
         = count_list (trace lr) CloseStopChan + (if \<not> stopChan lr then 1 else 0)"
    using cnt c2 f(1) by simp
  moreover have "stopChan lr1" using sc f(1) by simp
  moreover have "watcher lr1 = map_option (\<lambda>c. True) (watcher lr)"
    using w f(4) by (cases "watcher lr") auto
  moreover have "apiProcess lr1 = apiProcess lr" using ap f(2) by simp
  moreover have "\<forall>pid. apiProcess lr = Some pid \<longrightarrow> KillCall pid \<in> set (trace lr1)"
    unfolding more f(7) by simp
  moreover have "watcher lr \<noteq> None \<longrightarrow> WatcherCloseCall \<in> set (trace lr1)"
    unfolding more f(7) by auto
  ultimately show ?case by simp
qed

theorem Stop_idempotent_witness:
  "Stop_times 3 serving_runner = Inr (projr (Stop_times 3 serving_runner))
   \<and> count_list (trace (projr (Stop_times 3 serving_runner))) CloseStopChan = 1
   \<and> stopChan (projr (Stop_times 3 serving_runner))
   \<and> watcher (projr (Stop_times 3 serving_runner)) = Some True
   \<and> KillCall 4242 \<in> set (trace (projr (Stop_times 3 serving_runner)))
   \<and> WatcherCloseCall \<in> set (trace (projr (Stop_times 3 serving_runner)))"
proof -
  have init: "trace serving_runner = []" "\<not> stopChan serving_runner"
    "watcher serving_runner = Some False" "apiProcess serving_runner = Some 4242"
    by (simp_all add: serving_runner_def demo_runner_def fresh_runner_def)
  from Stop_idempotent [of 3 serving_runner] init show ?thesis
    by auto
qed


section \<open>Startup\<close>

lemma resolve_runtime_snd:
  "snd (resolve_runtime h c fn lr)
     = (if Runtime fn \<noteq> [] \<and> \<not> isl (GetRuntime (unicode_tables h) (Runtime fn))
        then GetRuntime (unicode_tables h) (Runtime fn)
        else GetRuntimeFromFunction h (Dir (Join [RootPath c, Clean (Code fn)])))"
  unfolding resolve_runtime_def Let_def
  by (cases "GetRuntime (unicode_tables h) (Runtime fn)") simp_all

lemma resolve_runtime_fst:
  "fst (resolve_runtime h c fn lr) = lr
   \<or> (\<exists>e. fst (resolve_runtime h c fn lr) = do_effect (Log e) lr)"
  unfolding resolve_runtime_def Let_def
  by (cases "GetRuntime (unicode_tables h) (Runtime fn)") auto

lemma resolve_runtime_frame:
  "cfg (fst (resolve_runtime h c fn lr)) = cfg lr"
  "apiProcess (fst (resolve_runtime h c fn lr)) = apiProcess lr"
  "watchedDirs (fst (resolve_runtime h c fn lr)) = watchedDirs lr"
  "functionRuntimes (fst (resolve_runtime h c fn lr)) = functionRuntimes lr"
  "build_calls (fst (resolve_runtime h c fn lr)) = build_calls lr"
  using resolve_runtime_fst [of h c fn lr] by auto

lemma resolve_runtime_indep:
  "snd (resolve_runtime h c fn lr) = snd (resolve_runtime h c fn lr')"
  by (simp add: resolve_runtime_snd)

text \<open>
  The loop of \<^verbatim>\<open>initializeRuntimes\<close> over one visit: it stops at the first function for
  which both ways fail, and the map then holds the runtimes of the functions visited
  before it and is as it was elsewhere.
\<close>

lemma initializeRuntimes_loop_char:
  assumes "distinct (map fst fs)"
  shows "\<exists>lr1. initializeRuntimes_loop h fs lr
             = (lr1, case find (\<lambda>e. isl (snd (resolve_runtime h (cfg lr) (snd e) lr))) fs of
                       Some e \<Rightarrow>
                         Some (RuntimeError (fst e)
                                 (projl (snd (resolve_runtime h (cfg lr) (snd e) lr))))
                     | None \<Rightarrow> None)
       \<and> cfg lr1 = cfg lr \<and> apiProcess lr1 = apiProcess lr \<and> watchedDirs lr1 = watchedDirs lr
       \<and> build_calls lr1 = build_calls lr
       \<and> (\<forall>e \<in> set (takeWhile (\<lambda>e. \<not> isl (snd (resolve_runtime h (cfg lr) (snd e) lr))) fs).
             functionRuntimes lr1 (fst e)
               = Some (projr (snd (resolve_runtime h (cfg lr) (snd e) lr))))
       \<and> (\<forall>g. g \<notin> fst ` set (takeWhile (\<lambda>e. \<not> isl (snd (resolve_runtime h (cfg lr) (snd e) lr)))
                                fs)
             \<longrightarrow> functionRuntimes lr1 g = functionRuntimes lr g)"
  using assms
proof (induction fs arbitrary: lr)
  case Nil
  show ?case by simp
next
  case (Cons e fs)
  obtain f fn where e: "e = (f, fn)" by (cases e)
  obtain lr2 res where rr: "resolve_runtime h (cfg lr) fn lr = (lr2, res)"
    by (cases "resolve_runtime h (cfg lr) fn lr") auto
  have fr: "cfg lr2 = cfg lr" "apiProcess lr2 = apiProcess lr" "watchedDirs lr2 = watchedDirs lr"
    "functionRuntimes lr2 = functionRuntimes lr" "build_calls lr2 = build_calls lr"
    using resolve_runtime_frame [of h "cfg lr" fn lr] rr by simp_all
  let ?F = "\<lambda>e. isl (snd (resolve_runtime h (cfg lr) (snd e) lr))"
  let ?R = "\<lambda>e. projr (snd (resolve_runtime h (cfg lr) (snd e) lr))"
  show ?case
  proof (cases res)
    case (Inl err)
    then show ?thesis
      unfolding e using rr fr by simp
  next
    case (Inr rt)
    let ?lr3 = "do_effect (Log (RuntimeDetected f (Name rt)))
                  (lr2\<lparr>functionRuntimes := (functionRuntimes lr2)(f \<mapsto> rt)\<rparr>)"
    have c3: "cfg ?lr3 = cfg lr" using fr by simp
    have ind: "\<And>fn'. snd (resolve_runtime h (cfg ?lr3) fn' ?lr3)
                  = snd (resolve_runtime h (cfg lr) fn' lr)"
      unfolding c3 by (rule resolve_runtime_indep)
    have d: "distinct (map fst fs)" and nf: "f \<notin> fst ` set fs"
      using Cons.prems e by auto
    from Cons.IH [OF d, of ?lr3] obtain lr1 where
      a: "initializeRuntimes_loop h fs ?lr3
            = (lr1, case find ?F fs of
                      Some e \<Rightarrow>
                        Some (RuntimeError (fst e)
                                (projl (snd (resolve_runtime h (cfg lr) (snd e) lr))))
                    | None \<Rightarrow> None)"
      and f1: "cfg lr1 = cfg ?lr3" "apiProcess lr1 = apiProcess ?lr3"
          "watchedDirs lr1 = watchedDirs ?lr3" "build_calls lr1 = build_calls ?lr3"
      and b: "\<forall>e \<in> set (takeWhile (\<lambda>e. \<not> ?F e) fs). functionRuntimes lr1 (fst e) = Some (?R e)"
      and c: "\<forall>g. g \<notin> fst ` set (takeWhile (\<lambda>e. \<not> ?F e) fs)
                \<longrightarrow> functionRuntimes lr1 g = functionRuntimes ?lr3 g"
      unfolding ind by blast
    have step: "initializeRuntimes_loop h ((f, fn) # fs) lr = initializeRuntimes_loop h fs ?lr3"
      using rr Inr by simp
    have here: "snd (resolve_runtime h (cfg lr) fn lr) = Inr rt" using rr Inr by simp
    have base: "cfg lr1 = cfg lr \<and> apiProcess lr1 = apiProcess lr \<and> watchedDirs lr1 = watchedDirs lr
           \<and> build_calls lr1 = build_calls lr"
      using f1 fr by (simp add: build_calls_def)
    have "set (takeWhile (\<lambda>e. \<not> ?F e) fs) \<subseteq> set fs"
      by (auto dest: set_takeWhileD)
    with nf have nt: "f \<notin> fst ` set (takeWhile (\<lambda>e. \<not> ?F e) fs)" by blast
    have ff: "functionRuntimes lr1 f = Some rt" using c nt by simp
    have tw: "takeWhile (\<lambda>e. \<not> ?F e) ((f, fn) # fs) = (f, fn) # takeWhile (\<lambda>e. \<not> ?F e) fs"
      using here by simp
    have fi: "find ?F ((f, fn) # fs) = find ?F fs"
      using here by simp
    have bb: "\<forall>e \<in> set (takeWhile (\<lambda>e. \<not> ?F e) ((f, fn) # fs)).
                 functionRuntimes lr1 (fst e) = Some (?R e)"
      unfolding tw using b ff here by simp
    have cc: "\<forall>g. g \<notin> fst ` set (takeWhile (\<lambda>e. \<not> ?F e) ((f, fn) # fs))
                \<longrightarrow> functionRuntimes lr1 g = functionRuntimes lr g"
      unfolding tw using c fr by simp
    show ?thesis
      unfolding e step fi a using bb cc base
      by (intro exI [of _ lr1]) simp
  qed
qed


text \<open>
  Claim C5, as the specification words it, does not hold: with the function \<^verbatim>\<open>api\<close>
  visited before the function \<^verbatim>\<open>legacy\<close>, whose declared identifier is unknown and
  whose directory holds no marker, \<^verbatim>\<open>initializeRuntimes\<close> and \<^verbatim>\<open>Start\<close> fail with the
  error that names \<^verbatim>\<open>legacy\<close>, and the runner they return has the Go runtime recorded
  for \<^verbatim>\<open>api\<close>, which had none before: the environment is left partially resolved.
\<close>

theorem initializeRuntimes_leaves_partial_resolution:
  "is_range (cfg (fresh_runner legacy_functions)) legacy_functions
   \<and> functionRuntimes (fresh_runner legacy_functions) ''api'' = None
   \<and> map_prod (\<lambda>lr1. (functionRuntimes lr1 ''api'', functionRuntimes lr1 ''legacy'')) id
        (initializeRuntimes quiet_host legacy_functions (fresh_runner legacy_functions))
      = ((Some GolangRuntime, None),
         Some (RuntimeError ''legacy'' (DetectionFailed ''/app/src/legacy'')))
   \<and> map_sum id (map_prod (\<lambda>lr1. (functionRuntimes lr1 ''api'', functionRuntimes lr1 ''legacy'')) id)
        (Start quiet_host legacy_functions legacy_functions legacy_functions
           (fresh_runner legacy_functions))
      = Inr ((Some GolangRuntime, None),
             StartFailed (RuntimeError ''legacy'' (DetectionFailed ''/app/src/legacy'')))"
  by (simp add: is_range_def fresh_runner_def project_def legacy_functions_def) code_simp

text \<open>
  Claim C5, amended.  For a function with a declared identifier that \<^verbatim>\<open>GetRuntime\<close>
  accepts, the runtime is the one \<^verbatim>\<open>GetRuntime\<close> gives; for a function whose identifier
  is rejected or empty it is what detection on the function's directory gives.  When both
  fail for some function, \<^verbatim>\<open>initializeRuntimes\<close> returns an error that names the first
  such function in the order of its visit, and \<^verbatim>\<open>Start\<close> fails with that error before
  any build, before the gateway emulator is started and before any directory is watched.
  When no function fails, each function has its runtime.  In both cases the runner that
  is returned has, recorded in its map, the runtimes of the functions visited before the
  first failing one, and the map is as it was for every other name: nothing is rolled
  back on failure.
\<close>

theorem initializeRuntimes_policy:
  assumes "distinct (map fst vs)"
  shows "(\<forall>fn rt. Runtime fn \<noteq> [] \<and> GetRuntime (unicode_tables h) (Runtime fn) = Inr rt
            \<longrightarrow> snd (resolve_runtime h (cfg lr) fn lr) = Inr rt)
       \<and> (\<forall>fn. Runtime fn = [] \<or> isl (GetRuntime (unicode_tables h) (Runtime fn))
            \<longrightarrow> snd (resolve_runtime h (cfg lr) fn lr)
                = GetRuntimeFromFunction h (Dir (Join [RootPath (cfg lr), Clean (Code fn)])))
       \<and> (\<exists>lr1. (case find (\<lambda>e. isl (snd (resolve_runtime h (cfg lr) (snd e) lr))) vs of
              Some e \<Rightarrow>
                initializeRuntimes h vs lr
                  = (lr1, Some (RuntimeError (fst e)
                                  (projl (snd (resolve_runtime h (cfg lr) (snd e) lr)))))
                \<and> Start h vs vb vw lr
                  = Inr (lr1, StartFailed (RuntimeError (fst e)
                                  (projl (snd (resolve_runtime h (cfg lr) (snd e) lr)))))
                \<and> build_calls lr1 = build_calls lr \<and> apiProcess lr1 = apiProcess lr
                \<and> watchedDirs lr1 = watchedDirs lr
            | None \<Rightarrow>
                initializeRuntimes h vs lr = (lr1, None)
                \<and> (\<forall>e \<in> set vs.
                      functionRuntimes lr1 (fst e)
                        = Some (projr (snd (resolve_runtime h (cfg lr) (snd e) lr)))))
          \<and> (\<forall>e \<in> set (takeWhile (\<lambda>e. \<not> isl (snd (resolve_runtime h (cfg lr) (snd e) lr))) vs).
                functionRuntimes lr1 (fst e)
                  = Some (projr (snd (resolve_runtime h (cfg lr) (snd e) lr))))
          \<and> (\<forall>g. g \<notin> fst ` set (takeWhile
                                   (\<lambda>e. \<not> isl (snd (resolve_runtime h (cfg lr) (snd e) lr))) vs)
                \<longrightarrow> functionRuntimes lr1 g = functionRuntimes lr g))"
proof -
  let ?F = "\<lambda>e. isl (snd (resolve_runtime h (cfg lr) (snd e) lr))"
  let ?R = "\<lambda>e. projr (snd (resolve_runtime h (cfg lr) (snd e) lr))"
  let ?E = "\<lambda>e. RuntimeError (fst e) (projl (snd (resolve_runtime h (cfg lr) (snd e) lr)))"
  have p1: "\<forall>fn rt. Runtime fn \<noteq> [] \<and> GetRuntime (unicode_tables h) (Runtime fn) = Inr rt
            \<longrightarrow> snd (resolve_runtime h (cfg lr) fn lr) = Inr rt"
    by (simp add: resolve_runtime_snd)
  have p2: "\<forall>fn. Runtime fn = [] \<or> isl (GetRuntime (unicode_tables h) (Runtime fn))
            \<longrightarrow> snd (resolve_runtime h (cfg lr) fn lr)
                = GetRuntimeFromFunction h (Dir (Join [RootPath (cfg lr), Clean (Code fn)]))"
    by (auto simp: resolve_runtime_snd)
  from initializeRuntimes_loop_char [OF assms, of h lr] obtain lr1 where
    a: "initializeRuntimes_loop h vs lr
          = (lr1, case find ?F vs of Some e \<Rightarrow> Some (?E e) | None \<Rightarrow> None)"
    and fr: "build_calls lr1 = build_calls lr" "apiProcess lr1 = apiProcess lr"
        "watchedDirs lr1 = watchedDirs lr"
    and b: "\<forall>e \<in> set (takeWhile (\<lambda>e. \<not> ?F e) vs). functionRuntimes lr1 (fst e) = Some (?R e)"
    and c: "\<forall>g. g \<notin> fst ` set (takeWhile (\<lambda>e. \<not> ?F e) vs)
              \<longrightarrow> functionRuntimes lr1 g = functionRuntimes lr g"
    by blast
  have p3: "case find ?F vs of
              Some e \<Rightarrow>
                initializeRuntimes h vs lr = (lr1, Some (?E e))
                \<and> Start h vs vb vw lr = Inr (lr1, StartFailed (?E e))
                \<and> build_calls lr1 = build_calls lr \<and> apiProcess lr1 = apiProcess lr
                \<and> watchedDirs lr1 = watchedDirs lr
            | None \<Rightarrow>
                initializeRuntimes h vs lr = (lr1, None)
                \<and> (\<forall>e \<in> set vs. functionRuntimes lr1 (fst e) = Some (?R e))"
  proof (cases "find ?F vs")
    case None
    then have "\<forall>e \<in> set vs. \<not> ?F e" by (auto simp: find_None_iff)
    then have "takeWhile (\<lambda>e. \<not> ?F e) vs = vs" by (simp add: takeWhile_eq_all_conv)
    with b have "\<forall>e \<in> set vs. functionRuntimes lr1 (fst e) = Some (?R e)" by simp
    with None a show ?thesis by (simp add: initializeRuntimes_def)
  next
    case (Some e)
    with a fr show ?thesis by (simp add: initializeRuntimes_def Start_def)
  qed
  from p1 p2 p3 b c show ?thesis by blast
qed


lemma legacy_distinct: "distinct (map fst legacy_functions)"
  by (simp add: legacy_functions_def)

lemma legacy_find_quiet:
  "find (\<lambda>e. isl (snd (resolve_runtime quiet_host (cfg (fresh_runner legacy_functions)) (snd e)
                          (fresh_runner legacy_functions))))
     legacy_functions
   = Some (''legacy'', lambda_func ''java17'' ''src/legacy/Main.java'')"
  by code_simp

lemma legacy_takeWhile_quiet:
  "takeWhile (\<lambda>e. \<not> isl (snd (resolve_runtime quiet_host (cfg (fresh_runner legacy_functions))
                                 (snd e) (fresh_runner legacy_functions))))
     legacy_functions
   = [(''api'', lambda_func ''go1.x'' ''src/api/main.go'')]"
  by code_simp

lemma legacy_api_quiet:
  "projr (snd (resolve_runtime quiet_host (cfg (fresh_runner legacy_functions))
                 (lambda_func ''go1.x'' ''src/api/main.go'') (fresh_runner legacy_functions)))
   = GolangRuntime"
  by code_simp

lemma legacy_error_quiet:
  "projl (snd (resolve_runtime quiet_host (cfg (fresh_runner legacy_functions))
                 (lambda_func ''java17'' ''src/legacy/Main.java'') (fresh_runner legacy_functions)))
   = DetectionFailed ''/app/src/legacy''"
  by code_simp

lemma legacy_find_python:
  "find (\<lambda>e. isl (snd (resolve_runtime host_legacy_python (cfg (fresh_runner legacy_functions))
                          (snd e) (fresh_runner legacy_functions))))
     legacy_functions
   = None"
  by code_simp

lemma legacy_python:
  "projr (snd (resolve_runtime host_legacy_python (cfg (fresh_runner legacy_functions))
                 (lambda_func ''java17'' ''src/legacy/Main.java'') (fresh_runner legacy_functions)))
   = PythonRuntime"
  by code_simp

lemma legacy_member:
  "(''legacy'', lambda_func ''java17'' ''src/legacy/Main.java'') \<in> set legacy_functions"
  by (simp add: legacy_functions_def)

lemma legacy_unresolved: "functionRuntimes (fresh_runner legacy_functions) = Map.empty"
  by (simp add: fresh_runner_def)

theorem initializeRuntimes_policy_witness:
  "snd (initializeRuntimes quiet_host legacy_functions (fresh_runner legacy_functions))
     = Some (RuntimeError ''legacy'' (DetectionFailed ''/app/src/legacy''))
   \<and> map_sum id snd
       (Start quiet_host legacy_functions legacy_functions legacy_functions
          (fresh_runner legacy_functions))
     = Inr (StartFailed (RuntimeError ''legacy'' (DetectionFailed ''/app/src/legacy'')))
   \<and> functionRuntimes
        (fst (initializeRuntimes quiet_host legacy_functions (fresh_runner legacy_functions)))
        ''api'' = Some GolangRuntime
   \<and> functionRuntimes
        (fst (initializeRuntimes quiet_host legacy_functions (fresh_runner legacy_functions)))
        ''legacy'' = None
   \<and> snd (initializeRuntimes host_legacy_python legacy_functions (fresh_runner legacy_functions))
     = None
   \<and> functionRuntimes
        (fst (initializeRuntimes host_legacy_python legacy_functions
                (fresh_runner legacy_functions)))
        ''legacy'' = Some PythonRuntime"
proof -
  let ?lr = "fresh_runner legacy_functions"
  from initializeRuntimes_policy
         [OF legacy_distinct, of quiet_host ?lr legacy_functions legacy_functions]
  obtain lr0 where
    a0: "initializeRuntimes quiet_host legacy_functions ?lr
           = (lr0, Some (RuntimeError ''legacy'' (DetectionFailed ''/app/src/legacy'')))"
    and a1: "Start quiet_host legacy_functions legacy_functions legacy_functions ?lr
           = Inr (lr0, StartFailed (RuntimeError ''legacy'' (DetectionFailed ''/app/src/legacy'')))"
    and a2: "functionRuntimes lr0 ''api'' = Some GolangRuntime"
    and a3: "functionRuntimes lr0 ''legacy'' = None"
    unfolding legacy_find_quiet legacy_takeWhile_quiet legacy_unresolved
    by (auto simp: legacy_error_quiet legacy_api_quiet)
  from initializeRuntimes_policy
         [OF legacy_distinct, of host_legacy_python ?lr legacy_functions legacy_functions]
  obtain lr1 where
    b: "initializeRuntimes host_legacy_python legacy_functions ?lr = (lr1, None)"
    and c: "\<forall>e \<in> set legacy_functions.
              functionRuntimes lr1 (fst e)
                = Some (projr (snd (resolve_runtime host_legacy_python (cfg ?lr) (snd e) ?lr)))"
    unfolding legacy_find_python by auto
  from c legacy_member have "functionRuntimes lr1 ''legacy'' = Some PythonRuntime"
    using legacy_python by fastforce
  with a0 a1 a2 a3 b show ?thesis by simp
qed


lemma build_outcome_cong:
  "cfg lr1 = cfg lr \<Longrightarrow> functionRuntimes lr1 = functionRuntimes lr
     \<Longrightarrow> build_outcome h lr1 = build_outcome h lr"
  by (rule ext) (rule build_outcome_at)

lemma needs_build_cong:
  "functionRuntimes lr1 = functionRuntimes lr \<Longrightarrow> needs_build lr1 = needs_build lr"
  by (rule ext) (simp add: needs_build_def)

lemma buildFunction_result:
  "snd (buildFunction h f fn rt lr)
     = map_option (BuildFailed f) (Build h rt (getOutputPath lr fn rt) (getOutputPath lr fn rt))"
  unfolding buildFunction_def Let_def
  by (simp split: option.split)

lemma buildAllFunctions_loop_char:
  assumes "\<forall>e \<in> set fs. functionRuntimes lr (fst e) \<noteq> None"
  shows "\<exists>lr1. buildAllFunctions_loop h fs lr
           = Inr (lr1,
                  case dropWhile (\<lambda>e. build_outcome h lr e = None) (filter (needs_build lr) fs) of
                    [] \<Rightarrow> None
                  | e # rest \<Rightarrow>
                      Some (FailedToBuild (fst e) (BuildFailed (fst e) (the (build_outcome h lr e)))))
       \<and> build_calls lr1
           = build_calls lr
             @ map fst (takeWhile (\<lambda>e. build_outcome h lr e = None) (filter (needs_build lr) fs)
                        @ take 1 (dropWhile (\<lambda>e. build_outcome h lr e = None)
                                    (filter (needs_build lr) fs)))
       \<and> cfg lr1 = cfg lr \<and> functionRuntimes lr1 = functionRuntimes lr
       \<and> apiProcess lr1 = apiProcess lr \<and> watchedDirs lr1 = watchedDirs lr"
  using assms
proof (induction fs arbitrary: lr)
  case Nil
  then show ?case by simp
next
  case (Cons e fs)
  obtain f fn where e: "e = (f, fn)" by (cases e)
  from Cons.prems e obtain rt where rt: "functionRuntimes lr f = Some rt" by auto
  have rest: "\<forall>e \<in> set fs. functionRuntimes lr (fst e) \<noteq> None" using Cons.prems by simp
  show ?case
  proof (cases "NeedsBuild rt")
    case False
    let ?lr2 = "do_effect (Log (SkippingBuild f (Name rt))) lr"
    have nb: "\<not> needs_build lr (f, fn)" using rt False by (simp add: needs_build_def)
    have c: "build_outcome h ?lr2 = build_outcome h lr" "needs_build ?lr2 = needs_build lr"
      by (rule build_outcome_cong needs_build_cong; simp)+
    have "\<forall>e \<in> set fs. functionRuntimes ?lr2 (fst e) \<noteq> None" using rest by simp
    from Cons.IH [OF this] show ?thesis
      unfolding c e using rt False nb by simp
  next
    case True
    obtain lr2 res where b: "buildFunction h f fn rt lr = (lr2, res)"
      by (cases "buildFunction h f fn rt lr") auto
    note fr = buildFunction_frame [OF b]
    have res: "res = map_option (BuildFailed f) (build_outcome h lr (f, fn))"
      using buildFunction_result [of h f fn rt lr] b rt by (simp add: build_outcome_def)
    have nb: "needs_build lr (f, fn)" using rt True by (simp add: needs_build_def)
    show ?thesis
    proof (cases "build_outcome h lr (f, fn)")
      case None
      have c: "build_outcome h lr2 = build_outcome h lr" "needs_build lr2 = needs_build lr"
        by (rule build_outcome_cong needs_build_cong; simp add: fr)+
      have "\<forall>e \<in> set fs. functionRuntimes lr2 (fst e) \<noteq> None" using rest fr by simp
      from Cons.IH [OF this] show ?thesis
        unfolding c e using rt True nb b res None fr by simp
    next
      case (Some err)
      then show ?thesis
        unfolding e using rt True nb b res fr by simp
    qed
  qed
qed

text \<open>
  Claim C1, as the specification words it, does not hold: when the build of \<^verbatim>\<open>api\<close>
  fails and \<^verbatim>\<open>api\<close> is visited first, \<^verbatim>\<open>buildAllFunctions\<close> returns that failure at
  once; \<^verbatim>\<open>jobs\<close>, which needs a build, is never built, and \<^verbatim>\<open>Start\<close> fails without
  starting the gateway emulator.
\<close>

theorem buildAllFunctions_aborts_batch:
  "needs_build demo_runner (''jobs'', lambda_func ''provided.al2'' ''src/jobs/main.go'')
   \<and> (''jobs'', lambda_func ''provided.al2'' ''src/jobs/main.go'') \<in> set (Functions (cfg demo_runner))
   \<and> map_sum id (\<lambda>(lr1, e). (build_calls lr1, e))
        (buildAllFunctions (failing_host [''/app/src/api/main.go'']) demo_functions demo_runner)
      = Inr ([''api''],
             Some (FailedToBuild ''api'' (BuildFailed ''api'' ''go build failed: exit status 1'')))
   \<and> map_sum id (\<lambda>(lr1, res). (build_calls lr1, apiProcess lr1, res))
        (Start (failing_host [''/app/src/api/main.go'']) demo_functions demo_functions
           demo_functions (fresh_runner demo_functions))
      = Inr ([''api''], None,
             StartFailed
               (FailedToBuild ''api'' (BuildFailed ''api'' ''go build failed: exit status 1'')))"
  by code_simp


text \<open>
  Claim C1, amended.  When every function has its runtime, the initial pass builds the
  functions that need a build in the order in which its range visits them, up to and
  including the first whose build fails; it returns that failure, wrapped with the
  function's name, and no error when no build fails.
\<close>

theorem buildAllFunctions_stops_at_first_failure:
  assumes "\<forall>e \<in> set vs. functionRuntimes lr (fst e) \<noteq> None"
  shows "\<exists>lr1. buildAllFunctions h vs lr
           = Inr (lr1,
                  case dropWhile (\<lambda>e. build_outcome h lr e = None)
                         (filter (needs_build lr) vs) of
                    [] \<Rightarrow> None
                  | e # rest \<Rightarrow>
                      Some (FailedToBuild (fst e) (BuildFailed (fst e) (the (build_outcome h lr e)))))
       \<and> build_calls lr1
           = build_calls lr
             @ map fst (takeWhile (\<lambda>e. build_outcome h lr e = None)
                          (filter (needs_build lr) vs)
                        @ take 1 (dropWhile (\<lambda>e. build_outcome h lr e = None)
                                    (filter (needs_build lr) vs)))"
  using buildAllFunctions_loop_char [OF assms, of h]
  unfolding buildAllFunctions_def by blast


lemma demo_resolved:
  "\<forall>e \<in> set demo_functions. functionRuntimes demo_runner (fst e) \<noteq> None"
  by (simp add: demo_runner_def fresh_runner_def demo_functions_def)

lemma jobs_fails_outcome:
  "(case dropWhile (\<lambda>e. build_outcome (failing_host [''/app/src/jobs/main.go'']) demo_runner e = None)
           (filter (needs_build demo_runner) demo_functions) of
      [] \<Rightarrow> None
    | e # rest \<Rightarrow>
        Some (FailedToBuild (fst e) (BuildFailed (fst e)
               (the (build_outcome (failing_host [''/app/src/jobs/main.go'']) demo_runner e)))))
   = Some (FailedToBuild ''jobs'' (BuildFailed ''jobs'' ''go build failed: exit status 1''))"
  by code_simp

lemma jobs_fails_attempts:
  "map fst (takeWhile (\<lambda>e. build_outcome (failing_host [''/app/src/jobs/main.go'']) demo_runner e = None)
              (filter (needs_build demo_runner) demo_functions)
            @ take 1 (dropWhile (\<lambda>e. build_outcome (failing_host [''/app/src/jobs/main.go''])
                                       demo_runner e = None)
                        (filter (needs_build demo_runner) demo_functions)))
   = [''api'', ''jobs'']"
  by code_simp

lemma demo_no_builds: "build_calls demo_runner = []"
  by (simp add: build_calls_def demo_runner_def fresh_runner_def)

theorem buildAllFunctions_stops_at_first_failure_witness:
  "map_sum id (\<lambda>(lr1, e). (build_calls lr1, e))
     (buildAllFunctions (failing_host [''/app/src/jobs/main.go'']) demo_functions demo_runner)
   = Inr ([''api'', ''jobs''],
          Some (FailedToBuild ''jobs'' (BuildFailed ''jobs'' ''go build failed: exit status 1'')))"
  using buildAllFunctions_stops_at_first_failure
          [OF demo_resolved, of "failing_host [''/app/src/jobs/main.go'']"]
  unfolding jobs_fails_outcome jobs_fails_attempts demo_no_builds
  by auto


section \<open>Debouncing and rebuilding\<close>

lemma belongs_to_cfg: "cfg lr1 = cfg lr \<Longrightarrow> belongs_to lr1 f ev = belongs_to lr f ev"
  by (simp add: belongs_to_def)

lemma find_SomeD: "find P xs = Some x \<Longrightarrow> x \<in> set xs \<and> P x"
  by (induction xs) (auto split: if_splits)

text \<open>
  Every range over the map finds the owner of an event that belongs to \<open>f\<close>: it is \<open>f\<close>,
  whatever the order of the visit.
\<close>

lemma belongs_to_owner:
  assumes "belongs_to lr f ev" and "is_range (cfg lr) vs"
  shows "findFunctionByPath lr vs (event_Name ev) = f"
proof -
  let ?P = "\<lambda>(funcName :: string, function).
              HasPrefix (event_Name ev) (Join [RootPath (cfg lr), Dir (Code function)])"
  have sv: "set vs = set (Functions (cfg lr))"
    using assms(2) by (simp add: is_range_def)
  have co: "fst ` {e \<in> set vs. ?P e} = {f}"
    using assms(1) unfolding belongs_to_def candidate_owners_def source_dir_def sv by simp
  then obtain e where "e \<in> set vs" "?P e" by blast
  then have "find ?P vs \<noteq> None" by (auto simp: find_None_iff)
  then obtain e' where fe: "find ?P vs = Some e'" by blast
  from find_SomeD [OF fe] have "fst e' \<in> fst ` {e \<in> set vs. ?P e}" by blast
  then have fst: "fst e' = f" unfolding co by simp
  have ni: "\<not> shouldIgnorePath (event_Name ev)"
    using assms(1) by (simp add: belongs_to_def)
  show ?thesis
    unfolding findFunctionByPath_def findFunctionByPath_loop_find fe using ni fst
    by (cases e') simp
qed

lemma on_event_accepted:
  assumes "belongs_to (runner r) f ev" and "is_range (cfg (runner r)) vo" and "f \<noteq> []"
  shows "changedFunctions (on_event h ev vc vo r)
           = (if f \<in> changeSet r then changedFunctions r else changedFunctions r @ [f])
       \<and> changeSet (on_event h ev vc vo r) = insert f (changeSet r)
       \<and> debounceTimer (on_event h ev vc vo r) = timer_Reset h (now r) 800 (debounceTimer r)"
proof -
  have own: "findFunctionByPath (runner r) vo (event_Name ev) = f"
    using assms(1,2) by (rule belongs_to_owner)
  have acc: "event_Op ev \<noteq> fsnotify_Chmod" "\<not> shouldIgnoreEvent ev"
    using assms(1) by (simp_all add: belongs_to_def)
  show ?thesis
    unfolding on_event_unfold Let_def own using acc assms(3) by auto
qed


lemma event_step_pending:
  assumes own: "belongs_to (runner r) f ev" and rg: "is_range (cfg (runner r)) vo"
    and ne: "f \<noteq> []"
    and w: "watcher (runner r) \<noteq> None" and run: "running r"
    and st: "(changedFunctions r = [] \<and> changeSet r = {}
              \<and> debounceTimer r = \<lparr>deadline = None, tick = False\<rparr>)
             \<or> (pending_one f r \<and> dt < 800)"
  shows "\<exists>r1. reactor_step h (dt, RecvEvent (Some ev) vc vo) r = Inr r1 \<and> pending_one f r1
           \<and> now r1 = now r + dt
           \<and> cfg (runner r1) = cfg (runner r)
           \<and> functionRuntimes (runner r1) = functionRuntimes (runner r)
           \<and> build_calls (runner r1) = build_calls (runner r)"
proof -
  let ?t = "now r + dt"
  let ?r0 = "r\<lparr>now := ?t, debounceTimer := timer_advance ?t (debounceTimer r)\<rparr>"
  have step: "reactor_step h (dt, RecvEvent (Some ev) vc vo) r = Inr (on_event h ev vc vo ?r0)"
    using w by (auto simp: reactor_step_def Let_def)
  have own0: "belongs_to (runner ?r0) f ev" using own by simp
  have rg0: "is_range (cfg (runner ?r0)) vo" using rg by simp
  from on_event_accepted [OF own0 rg0 ne, of h vc]
  have acc: "changedFunctions (on_event h ev vc vo ?r0)
           = (if f \<in> changeSet r then changedFunctions r else changedFunctions r @ [f])"
    "changeSet (on_event h ev vc vo ?r0) = insert f (changeSet r)"
    "debounceTimer (on_event h ev vc vo ?r0)
       = timer_Reset h ?t 800 (timer_advance ?t (debounceTimer r))"
    by simp_all
  note fr = on_event_frame [of h ev vc vo ?r0]
  have tm: "timer_advance ?t (debounceTimer r) = debounceTimer r \<and> \<not> tick (debounceTimer r)"
    using st
  proof
    assume "changedFunctions r = [] \<and> changeSet r = {}
              \<and> debounceTimer r = \<lparr>deadline = None, tick = False\<rparr>"
    then have d: "debounceTimer r = \<lparr>deadline = None, tick = False\<rparr>" by simp
    show ?thesis unfolding d by (simp add: timer_advance_def)
  next
    assume a: "pending_one f r \<and> dt < 800"
    then have d: "debounceTimer r = \<lparr>deadline = Some (now r + 800), tick = False\<rparr>"
      by (simp add: pending_one_def)
    show ?thesis unfolding d using a by (simp add: timer_advance_def)
  qed
  have cs: "(changedFunctions r = [] \<and> changeSet r = {})
            \<or> (changedFunctions r = [f] \<and> changeSet r = {f})"
    using st unfolding pending_one_def by blast
  have cf: "changedFunctions (on_event h ev vc vo ?r0) = [f]
            \<and> changeSet (on_event h ev vc vo ?r0) = {f}"
    using cs
  proof
    assume a: "changedFunctions r = [] \<and> changeSet r = {}"
    show ?thesis unfolding acc(1,2) using a by simp
  next
    assume a: "changedFunctions r = [f] \<and> changeSet r = {f}"
    show ?thesis unfolding acc(1,2) using a by simp
  qed
  have dl: "debounceTimer (on_event h ev vc vo ?r0) = \<lparr>deadline = Some (?t + 800), tick = False\<rparr>"
    using acc(3) tm by (simp add: timer_Reset_def)
  show ?thesis
    unfolding step using cf dl fr run w
    by (intro exI [of _ "on_event h ev vc vo ?r0"]) (simp add: pending_one_def)
qed

lemma burst_from_pending:
  assumes "pending_one f r" and "f \<noteq> []"
    and "\<forall>(dt, ev, vc, vo) \<in> set evs.
           belongs_to (runner r) f ev \<and> is_range (cfg (runner r)) vo \<and> dt < 800"
  shows "\<exists>r1. watchForChanges h (burst_rounds evs) r = Inr r1 \<and> pending_one f r1
           \<and> now r1 = now r + sum_list (map fst evs)
           \<and> cfg (runner r1) = cfg (runner r)
           \<and> functionRuntimes (runner r1) = functionRuntimes (runner r)
           \<and> build_calls (runner r1) = build_calls (runner r)"
  using assms
proof (induction evs arbitrary: r)
  case Nil
  then show ?case by (simp add: burst_rounds_def)
next
  case (Cons x evs)
  obtain dt ev vc vo where x: "x = (dt, ev, vc, vo)" by (cases x)
  have own: "belongs_to (runner r) f ev" and rg: "is_range (cfg (runner r)) vo"
    and lt: "dt < 800"
    using Cons.prems(3) x by auto
  have run: "running r" and w: "watcher (runner r) \<noteq> None"
    using Cons.prems(1) by (simp_all add: pending_one_def)
  from event_step_pending [OF own rg Cons.prems(2) w run, where dt = dt and h = h and vc = vc]
    Cons.prems(1) lt
  obtain r2 where st: "reactor_step h (dt, RecvEvent (Some ev) vc vo) r = Inr r2"
    and p2: "pending_one f r2" and n2: "now r2 = now r + dt"
    and fr: "cfg (runner r2) = cfg (runner r)"
      "functionRuntimes (runner r2) = functionRuntimes (runner r)"
      "build_calls (runner r2) = build_calls (runner r)"
    by blast
  have "\<forall>(dt, ev, vc, vo) \<in> set evs.
           belongs_to (runner r2) f ev \<and> is_range (cfg (runner r2)) vo \<and> dt < 800"
    using Cons.prems(3) unfolding fr(1) belongs_to_cfg [OF fr(1)] by simp
  from Cons.IH [OF p2 Cons.prems(2) this] obtain r1 where
    "watchForChanges h (burst_rounds evs) r2 = Inr r1" "pending_one f r1"
    "now r1 = now r2 + sum_list (map fst evs)" "cfg (runner r1) = cfg (runner r2)"
    "functionRuntimes (runner r1) = functionRuntimes (runner r2)"
    "build_calls (runner r1) = build_calls (runner r2)"
    by blast
  then show ?case
    unfolding x using st run n2 fr
    by (intro exI [of _ r1]) (simp add: burst_rounds_def)
qed


lemma timer_blocked:
  assumes "debounceTimer r = \<lparr>deadline = dl, tick = False\<rparr>"
    and "case dl of None \<Rightarrow> True | Some t \<Rightarrow> now r + d < t"
    and "watcher (runner r) \<noteq> None"
  shows "reactor_step h (d, RecvTimer) r = Inl NotReady"
proof -
  have "timer_advance (now r + d) (debounceTimer r) = \<lparr>deadline = dl, tick = False\<rparr>"
    unfolding assms(1) using assms(2) by (cases dl) (simp_all add: timer_advance_def)
  then show ?thesis
    using assms(3) by (simp add: reactor_step_def Let_def)
qed

lemma demo_range:
  "is_range (cfg demo_runner) demo_functions"
  "is_range (cfg demo_runner) (rev demo_functions)"
  by (auto simp: is_range_def demo_runner_def fresh_runner_def project_def
      demo_functions_def)

text \<open>
  Claim C3, as the specification words it, does not hold: two writes to a source of the
  Node.js function \<^verbatim>\<open>web\<close>, 100 ms apart, make \<^verbatim>\<open>web\<close> pending, and when the timer
  is received 800 ms later the pending list is emptied and nothing has been built.  The
  source lies under the directory of \<^verbatim>\<open>web\<close> and of no other function, so the order of
  the visits plays no part.
\<close>

theorem burst_without_rebuild:
  "belongs_to demo_runner ''web'' web_event
   \<and> candidate_owners (cfg demo_runner) (event_Name web_event) = [''web'']
   \<and> map_sum id changedFunctions
       (watchForChanges quiet_host
          (burst_rounds [(0, web_event, demo_functions, rev demo_functions),
                         (100, web_event, rev demo_functions, demo_functions)])
          (watchForChanges_init demo_runner))
     = Inr [''web'']
   \<and> map_sum id (\<lambda>r. (changedFunctions r, build_calls (runner r)))
       (watchForChanges quiet_host
          (burst_rounds [(0, web_event, demo_functions, rev demo_functions),
                         (100, web_event, rev demo_functions, demo_functions)]
           @ [(800, RecvTimer)])
          (watchForChanges_init demo_runner))
     = Inr ([], [])"
  by code_simp

text \<open>
  Claim C3, amended.  The loop is idle and receives a burst of events that all belong to
  function \<open>f\<close>: none is dropped by the loop, and the path of each lies under the source
  directory of \<open>f\<close> and of no other function, and contains none of the ignored strings.
  Each event comes less than 800 ms after the one before, and the lookups of the owner
  range over the map in whatever orders.  Then \<open>f\<close> is pending once, nothing has been
  built, and the timer is armed 800 ms after the last event.  The timer cannot be
  received earlier than that; when it is received, \<open>f\<close> is built once if its runtime
  needs a build and not at all otherwise, the loop is idle again, and the timer cannot be
  received again.
\<close>

theorem burst_gives_one_rebuild:
  assumes idle: "changedFunctions r = [] \<and> changeSet r = {}
                 \<and> debounceTimer r = \<lparr>deadline = None, tick = False\<rparr>"
    and live: "running r \<and> watcher (runner r) \<noteq> None"
    and own: "f \<noteq> [] \<and> belongs_to (runner r) f ev1 \<and> is_range (cfg (runner r)) vo1"
    and burst: "\<forall>(dt, ev, vc, vo) \<in> set rest.
                  belongs_to (runner r) f ev \<and> is_range (cfg (runner r)) vo \<and> dt < 800"
    and rt: "functionRuntimes (runner r) f = Some rt"
  shows "\<exists>r1. watchForChanges h (burst_rounds ((dt1, ev1, vc1, vo1) # rest)) r = Inr r1
       \<and> changedFunctions r1 = [f] \<and> changeSet r1 = {f}
       \<and> debounceTimer r1 = \<lparr>deadline = Some (now r1 + 800), tick = False\<rparr>
       \<and> now r1 = now r + dt1 + sum_list (map fst rest)
       \<and> build_calls (runner r1) = build_calls (runner r)
       \<and> (\<forall>d. d < 800 \<longrightarrow> reactor_step h (d, RecvTimer) r1 = Inl NotReady)
       \<and> (\<forall>d. 800 \<le> d \<longrightarrow>
             (\<exists>r2. reactor_step h (d, RecvTimer) r1 = Inr r2
                \<and> build_calls (runner r2)
                    = build_calls (runner r) @ (if NeedsBuild rt then [f] else [])
                \<and> changedFunctions r2 = [] \<and> changeSet r2 = {}
                \<and> debounceTimer r2 = \<lparr>deadline = None, tick = False\<rparr>
                \<and> (\<forall>d'. reactor_step h (d', RecvTimer) r2 = Inl NotReady)))"
proof -
  from own have ne: "f \<noteq> []" and o1: "belongs_to (runner r) f ev1"
    and g1: "is_range (cfg (runner r)) vo1"
    by simp_all
  from live have run: "running r" and w: "watcher (runner r) \<noteq> None" by simp_all
  from event_step_pending [OF o1 g1 ne w run, where dt = dt1 and h = h and vc = vc1] idle
  obtain r0 where s0: "reactor_step h (dt1, RecvEvent (Some ev1) vc1 vo1) r = Inr r0"
    and p0: "pending_one f r0" and n0: "now r0 = now r + dt1"
    and f0: "cfg (runner r0) = cfg (runner r)"
      "functionRuntimes (runner r0) = functionRuntimes (runner r)"
      "build_calls (runner r0) = build_calls (runner r)"
    by blast
  have b0: "\<forall>(dt, ev, vc, vo) \<in> set rest.
              belongs_to (runner r0) f ev \<and> is_range (cfg (runner r0)) vo \<and> dt < 800"
    using burst unfolding f0(1) belongs_to_cfg [OF f0(1)] by simp
  from burst_from_pending [OF p0 ne b0, of h]
  obtain r1 where run1: "watchForChanges h (burst_rounds rest) r0 = Inr r1"
    and p1: "pending_one f r1" and n1: "now r1 = now r0 + sum_list (map fst rest)"
    and f1: "cfg (runner r1) = cfg (runner r0)"
      "functionRuntimes (runner r1) = functionRuntimes (runner r0)"
      "build_calls (runner r1) = build_calls (runner r0)"
    by blast
  have whole: "watchForChanges h (burst_rounds ((dt1, ev1, vc1, vo1) # rest)) r = Inr r1"
    using s0 run1 live by (simp add: burst_rounds_def)
  have cf1: "changedFunctions r1 = [f]" "changeSet r1 = {f}"
    and tm1: "debounceTimer r1 = \<lparr>deadline = Some (now r1 + 800), tick = False\<rparr>"
    and w1: "watcher (runner r1) \<noteq> None"
    using p1 by (simp_all add: pending_one_def)
  have early: "\<forall>d. d < 800 \<longrightarrow> reactor_step h (d, RecvTimer) r1 = Inl NotReady"
  proof (intro allI impI)
    fix d :: nat assume "d < 800"
    then show "reactor_step h (d, RecvTimer) r1 = Inl NotReady"
      using timer_blocked [OF tm1 _ w1, of d h] by simp
  qed
  have rt1: "functionRuntimes (runner r1) f = Some rt" using rt f0 f1 by simp
  have late: "\<forall>d. 800 \<le> d \<longrightarrow>
             (\<exists>r2. reactor_step h (d, RecvTimer) r1 = Inr r2
                \<and> build_calls (runner r2)
                    = build_calls (runner r) @ (if NeedsBuild rt then [f] else [])
                \<and> changedFunctions r2 = [] \<and> changeSet r2 = {}
                \<and> debounceTimer r2 = \<lparr>deadline = None, tick = False\<rparr>
                \<and> (\<forall>d'. reactor_step h (d', RecvTimer) r2 = Inl NotReady))"
  proof (intro allI impI)
    fix d :: nat assume d: "800 \<le> d"
    have adv: "timer_advance (now r1 + d) (debounceTimer r1) = \<lparr>deadline = None, tick = True\<rparr>"
      unfolding tm1 using d by (simp add: timer_advance_def)
    have "\<forall>g \<in> set [f]. functionRuntimes (runner r1) g \<noteq> None" using rt1 by simp
    from handleFileChange_char [OF this, of h] obtain lr2 where
      hc: "handleFileChange h [f] (runner r1) = Inr lr2"
      and bc: "build_calls lr2
           = build_calls (runner r1)
             @ filter (\<lambda>g. needs_build (runner r1) (g, lookup_function (cfg (runner r1)) g)) [f]"
      and w2: "watcher lr2 = watcher (runner r1)"
      by blast
    let ?r2 = "r1\<lparr>now := now r1 + d, debounceTimer := \<lparr>deadline = None, tick = False\<rparr>,
                  runner := lr2, changedFunctions := [], changeSet := {}\<rparr>"
    have st: "reactor_step h (d, RecvTimer) r1 = Inr ?r2"
      using w1 hc by (simp add: reactor_step_def Let_def adv on_timer_def cf1)
    have nb: "needs_build (runner r1) (f, lookup_function (cfg (runner r1)) f) = NeedsBuild rt"
      using rt1 by (simp add: needs_build_def)
    have bc2: "build_calls (runner ?r2) = build_calls (runner r) @ (if NeedsBuild rt then [f] else [])"
      using bc nb f0 f1 by simp
    have after: "\<forall>d'. reactor_step h (d', RecvTimer) ?r2 = Inl NotReady"
    proof
      fix d'
      have "debounceTimer ?r2 = \<lparr>deadline = None, tick = False\<rparr>" by simp
      from timer_blocked [OF this, of d' h] w1 w2
      show "reactor_step h (d', RecvTimer) ?r2 = Inl NotReady" by simp
    qed
    show "\<exists>r2. reactor_step h (d, RecvTimer) r1 = Inr r2
                \<and> build_calls (runner r2)
                    = build_calls (runner r) @ (if NeedsBuild rt then [f] else [])
                \<and> changedFunctions r2 = [] \<and> changeSet r2 = {}
                \<and> debounceTimer r2 = \<lparr>deadline = None, tick = False\<rparr>
                \<and> (\<forall>d'. reactor_step h (d', RecvTimer) r2 = Inl NotReady)"
      using st bc2 after by (intro exI [of _ ?r2]) simp
  qed
  show ?thesis
    using whole cf1 tm1 n0 n1 f0 f1 early late
    by (intro exI [of _ r1]) simp
qed


lemma api_event_belongs: "belongs_to demo_runner ''api'' api_event"
  by code_simp

lemma api_runtime: "functionRuntimes demo_runner ''api'' = Some GolangRuntime"
  by (simp add: demo_runner_def)

theorem burst_gives_one_rebuild_witness:
  "\<exists>r1. watchForChanges quiet_host
           (burst_rounds [(0, api_event, demo_functions, rev demo_functions),
                          (100, api_event, rev demo_functions, demo_functions),
                          (100, api_event, demo_functions, rev demo_functions)])
           (watchForChanges_init demo_runner) = Inr r1
     \<and> changedFunctions r1 = [''api''] \<and> now r1 = 200
     \<and> reactor_step quiet_host (799, RecvTimer) r1 = Inl NotReady
     \<and> (\<exists>r2. reactor_step quiet_host (800, RecvTimer) r1 = Inr r2
            \<and> build_calls (runner r2) = [''api''] \<and> changedFunctions r2 = [])"
proof -
  let ?r = "watchForChanges_init demo_runner"
  let ?rest = "[(100::nat, api_event, rev demo_functions, demo_functions),
                (100, api_event, demo_functions, rev demo_functions)]"
  have idle: "changedFunctions ?r = [] \<and> changeSet ?r = {}
              \<and> debounceTimer ?r = \<lparr>deadline = None, tick = False\<rparr>"
    and live: "running ?r \<and> watcher (runner ?r) \<noteq> None"
    and r: "runner ?r = demo_runner" and n: "now ?r = 0"
    by (simp_all add: watchForChanges_init_def demo_runner_def fresh_runner_def)
  have own: "''api'' \<noteq> [] \<and> belongs_to (runner ?r) ''api'' api_event
             \<and> is_range (cfg (runner ?r)) (rev demo_functions)"
    unfolding r using api_event_belongs demo_range by simp
  have burst: "\<forall>(dt, ev, vc, vo) \<in> set ?rest.
                 belongs_to (runner ?r) ''api'' ev \<and> is_range (cfg (runner ?r)) vo \<and> dt < 800"
    unfolding r using api_event_belongs demo_range by simp
  have rt: "functionRuntimes (runner ?r) ''api'' = Some GolangRuntime"
    unfolding r by (rule api_runtime)
  have nb: "build_calls demo_runner = []"
    by (simp add: build_calls_def demo_runner_def fresh_runner_def)
  from burst_gives_one_rebuild
         [OF idle live own burst rt, where h = quiet_host and ?dt1.0 = 0 and ?vc1.0 = demo_functions]
  obtain r1 where
    a: "watchForChanges quiet_host
           (burst_rounds ((0, api_event, demo_functions, rev demo_functions) # ?rest)) ?r = Inr r1"
    and b: "changedFunctions r1 = [''api'']"
      "now r1 = now ?r + 0 + sum_list (map fst ?rest)"
    and early: "\<forall>d. d < 800 \<longrightarrow> reactor_step quiet_host (d, RecvTimer) r1 = Inl NotReady"
    and late: "\<forall>d. 800 \<le> d \<longrightarrow>
             (\<exists>r2. reactor_step quiet_host (d, RecvTimer) r1 = Inr r2
                \<and> build_calls (runner r2)
                    = build_calls (runner ?r) @ (if NeedsBuild GolangRuntime then [''api''] else [])
                \<and> changedFunctions r2 = [] \<and> changeSet r2 = {}
                \<and> debounceTimer r2 = \<lparr>deadline = None, tick = False\<rparr>
                \<and> (\<forall>d'. reactor_step quiet_host (d', RecvTimer) r2 = Inl NotReady))"
    by blast
  from early have e: "reactor_step quiet_host (799, RecvTimer) r1 = Inl NotReady" by simp
  from late obtain r2 where
    "reactor_step quiet_host (800, RecvTimer) r1 = Inr r2"
    "build_calls (runner r2) = [''api'']" "changedFunctions r2 = []"
    unfolding r nb by fastforce
  with a b e n show ?thesis by (intro exI [of _ r1]) simp
qed

text \<open>
  Claim C6, as the specification words it, does not hold: with the Go function \<^verbatim>\<open>api\<close>
  and the Node.js function \<^verbatim>\<open>web\<close> pending, the timer leads to one build, not two.
\<close>

theorem timer_skips_installed_runtimes:
  "map_sum id changedFunctions
     (watchForChanges quiet_host
        (burst_rounds [(0, api_event, demo_functions, rev demo_functions),
                       (100, web_event, rev demo_functions, demo_functions)])
        (watchForChanges_init demo_runner))
   = Inr [''api'', ''web'']
   \<and> map_sum id (\<lambda>r. (changedFunctions r, build_calls (runner r)))
       (watchForChanges quiet_host
          (burst_rounds [(0, api_event, demo_functions, rev demo_functions),
                         (100, web_event, rev demo_functions, demo_functions)]
           @ [(800, RecvTimer)])
          (watchForChanges_init demo_runner))
     = Inr ([], [''api''])"
  by code_simp

text \<open>
  Claim C6, amended.  When the timer is received, every pending function whose runtime
  needs a build is built once, in the order in which the functions became pending,
  whatever the outcome of the builds before it; the functions whose runtime needs no
  build are not built.  Every failed build is logged, and the pending list is emptied.
\<close>

theorem timer_rebuilds_each_pending_function:
  assumes "tick (timer_advance (now r + dt) (debounceTimer r))"
    and "watcher (runner r) \<noteq> None"
    and "\<forall>f \<in> set (changedFunctions r). functionRuntimes (runner r) f \<noteq> None"
  shows "\<exists>r1. reactor_step h (dt, RecvTimer) r = Inr r1
       \<and> changedFunctions r1 = []
       \<and> changeSet r1 = (if changedFunctions r = [] then changeSet r else {})
       \<and> build_calls (runner r1)
           = build_calls (runner r)
             @ filter (\<lambda>f. needs_build (runner r) (f, lookup_function (cfg (runner r)) f))
                 (changedFunctions r)
       \<and> (\<forall>f \<in> set (changedFunctions r). \<forall>err.
             needs_build (runner r) (f, lookup_function (cfg (runner r)) f)
             \<and> build_outcome h (runner r) (f, lookup_function (cfg (runner r)) f) = Some err
             \<longrightarrow> Log (FailedRebuild f (BuildFailed f err)) \<in> set (trace (runner r1)))"
proof (cases "changedFunctions r = []")
  case True
  then show ?thesis
    using assms(1,2) by (simp add: reactor_step_def Let_def on_timer_def)
next
  case False
  from handleFileChange_char [OF assms(3), of h] obtain lr1 where
    hc: "handleFileChange h (changedFunctions r) (runner r) = Inr lr1"
    and props: "build_calls lr1
           = build_calls (runner r)
             @ filter (\<lambda>f. needs_build (runner r) (f, lookup_function (cfg (runner r)) f))
                 (changedFunctions r)"
      "\<forall>f \<in> set (changedFunctions r). \<forall>err.
             needs_build (runner r) (f, lookup_function (cfg (runner r)) f)
             \<and> build_outcome h (runner r) (f, lookup_function (cfg (runner r)) f) = Some err
             \<longrightarrow> Log (FailedRebuild f (BuildFailed f err)) \<in> set (trace lr1)"
    by blast
  show ?thesis
    using assms(1,2) False hc props
    by (simp add: reactor_step_def Let_def on_timer_def)
qed


lemma all_pending_builders:
  "filter (\<lambda>f. needs_build demo_runner (f, lookup_function (cfg demo_runner) f))
     [''api'', ''jobs'', ''web'']
   = [''api'', ''jobs'']"
  by code_simp

lemma api_build_fails:
  "needs_build demo_runner (''api'', lookup_function (cfg demo_runner) ''api'')
   \<and> build_outcome (failing_host [''/app/src/api/main.go'']) demo_runner
        (''api'', lookup_function (cfg demo_runner) ''api'')
      = Some ''go build failed: exit status 1''"
  by code_simp

theorem timer_rebuilds_each_pending_function_witness:
  "\<exists>r1. reactor_step (failing_host [''/app/src/api/main.go'']) (800, RecvTimer) all_pending = Inr r1
     \<and> changedFunctions r1 = []
     \<and> build_calls (runner r1) = [''api'', ''jobs'']
     \<and> Log (FailedRebuild ''api'' (BuildFailed ''api'' ''go build failed: exit status 1''))
         \<in> set (trace (runner r1))"
proof -
  have st: "runner all_pending = demo_runner"
    "changedFunctions all_pending = [''api'', ''jobs'', ''web'']"
    "debounceTimer all_pending = \<lparr>deadline = Some 800, tick = False\<rparr>" "now all_pending = 0"
    by (simp_all add: all_pending_def watchForChanges_init_def)
  have t: "tick (timer_advance (now all_pending + 800) (debounceTimer all_pending))"
    unfolding st by (simp add: timer_advance_def)
  have w: "watcher (runner all_pending) \<noteq> None"
    unfolding st by (simp add: demo_runner_def fresh_runner_def)
  have res: "\<forall>f \<in> set (changedFunctions all_pending). functionRuntimes (runner all_pending) f \<noteq> None"
    unfolding st by (simp add: demo_runner_def)
  have nb: "build_calls demo_runner = []"
    by (simp add: build_calls_def demo_runner_def fresh_runner_def)
  from timer_rebuilds_each_pending_function [OF t w res, of "failing_host [''/app/src/api/main.go'']"]
  obtain r1 where
    a: "reactor_step (failing_host [''/app/src/api/main.go'']) (800, RecvTimer) all_pending = Inr r1"
    and b: "changedFunctions r1 = []"
    and c: "build_calls (runner r1) = [''api'', ''jobs'']"
    and d: "\<forall>f \<in> set [''api'', ''jobs'', ''web'']. \<forall>err.
             needs_build demo_runner (f, lookup_function (cfg demo_runner) f)
             \<and> build_outcome (failing_host [''/app/src/api/main.go'']) demo_runner
                  (f, lookup_function (cfg demo_runner) f) = Some err
             \<longrightarrow> Log (FailedRebuild f (BuildFailed f err)) \<in> set (trace (runner r1))"
    unfolding st all_pending_builders nb by auto
  from d api_build_fails
  have "Log (FailedRebuild ''api'' (BuildFailed ''api'' ''go build failed: exit status 1''))
         \<in> set (trace (runner r1))"
    by simp
  with a b c show ?thesis by blast
qed


end
